theory Spec2Isabelle
  imports Main
begin

section \<open>JavaScript values\<close>

text \<open>
  The delegation substrate (\<^verbatim>\<open>src/util/ProxyWrapper.ts\<close>) is reflective code: its traps ask a
  value for its type, its own keys, its prototype and its properties. The values it can be
  handed are modelled as a datatype. Objects are structural (no heap, so no object identity):
  an object is its internal slot, its own properties in key order, and its prototype.
  Only data properties are modelled (no getters or setters). Numbers are the integral ones.
  A symbol is identified with its description.
\<close>

datatype propkey = KStr string | KSym string

datatype 'v pdesc = Prop (pvalue: 'v) (writable: bool) (enumerable: bool) (configurable: bool)

datatype slot = NoSlot | StringData string | NumberData int | DateValue int | RegExpData string | ErrorData

text \<open>
  Functions are named. A built-in method is named by the prototype it lives on and its
  property name; \<open>UserFn\<close> is any function written by a user of the library.
\<close>

datatype fn = ObjectProto string | FunctionProto string | StringProto string | NumberProto string
  | DateProto string | RegExpProto string | ErrorProto string | Ctor string | UserFn string

datatype jsval = JUndefined | JNull | JBool bool | JNum int | JBigInt int | JStr string | JSym string
  | JObj slot "(propkey \<times> jsval pdesc) list" jsval
  | JFun fn
  | JBound jsval jsval
  | JThunk jsval
  | JProxy jsval "(propkey \<times> jsval) list"

text \<open>
  \<open>JObj s ps p\<close> is an ordinary (or boxed) object with slot \<open>s\<close>, own properties \<open>ps\<close> and
  prototype \<open>p\<close>. \<open>JBound f t\<close> is \<^verbatim>\<open>f.bind(t)\<close>. \<open>JThunk v\<close> is the arrow function
  \<^verbatim>\<open>() => v\<close>. \<open>JProxy body extension\<close> is \<^verbatim>\<open>new Proxy({ body, extension }, handlerMethods)\<close>:
  the handler is always \<^verbatim>\<open>handlerMethods\<close> and the target is always the fresh two-field
  object, so a proxy is determined by \<open>body\<close> and by the own data properties of \<open>extension\<close>.
\<close>

type_synonym extension = "(propkey \<times> jsval) list"

datatype js_error = TypeError string | Thrown jsval

datatype jstype = TUndefined | TObject | TBoolean | TNumber | TBigInt | TString | TSymbol | TFunction

fun typeof :: "jsval \<Rightarrow> jstype" where
  "typeof JUndefined = TUndefined"
| "typeof JNull = TObject"
| "typeof (JBool b) = TBoolean"
| "typeof (JNum n) = TNumber"
| "typeof (JBigInt n) = TBigInt"
| "typeof (JStr s) = TString"
| "typeof (JSym s) = TSymbol"
| "typeof (JObj s ps p) = TObject"
| "typeof (JFun f) = TFunction"
| "typeof (JBound f t) = TFunction"
| "typeof (JThunk v) = TFunction"
| "typeof (JProxy b e) = TObject"

subsection \<open>The built-in prototypes\<close>

text \<open>
  A method of a built-in prototype is a writable, non-enumerable, configurable data property.
  The tables list the standard property names of ECMAScript 2020.
\<close>

definition methods :: "(string \<Rightarrow> fn) \<Rightarrow> string list \<Rightarrow> (propkey \<times> jsval pdesc) list" where
  "methods mk names = map (\<lambda>n. (KStr n, Prop (JFun (mk n)) True False True)) names"

definition ctor :: "string \<Rightarrow> propkey \<times> jsval pdesc" where
  "ctor n = (KStr ''constructor'', Prop (JFun (Ctor n)) True False True)"

definition Object_prototype :: jsval where
  "Object_prototype = JObj NoSlot
     (ctor ''Object'' # methods ObjectProto
        [''hasOwnProperty'', ''isPrototypeOf'', ''propertyIsEnumerable'', ''toLocaleString'',
         ''toString'', ''valueOf''])
     JNull"

definition Function_prototype :: jsval where
  "Function_prototype = JObj NoSlot
     (ctor ''Function'' # methods FunctionProto [''apply'', ''bind'', ''call'', ''toString''])
     Object_prototype"

definition String_prototype :: jsval where
  "String_prototype = JObj (StringData [])
     ((KStr ''length'', Prop (JNum 0) False False False) # ctor ''String'' # methods StringProto
        [''charAt'', ''charCodeAt'', ''codePointAt'', ''concat'', ''endsWith'', ''includes'',
         ''indexOf'', ''lastIndexOf'', ''localeCompare'', ''match'', ''matchAll'', ''normalize'',
         ''padEnd'', ''padStart'', ''repeat'', ''replace'', ''search'', ''slice'', ''split'',
         ''startsWith'', ''substring'', ''toLocaleLowerCase'', ''toLocaleUpperCase'',
         ''toLowerCase'', ''toString'', ''toUpperCase'', ''trim'', ''trimEnd'', ''trimStart'',
         ''valueOf''])
     Object_prototype"

definition Number_prototype :: jsval where
  "Number_prototype = JObj (NumberData 0)
     (ctor ''Number'' # methods NumberProto
        [''toExponential'', ''toFixed'', ''toLocaleString'', ''toPrecision'', ''toString'',
         ''valueOf''])
     Object_prototype"

definition date_accessors :: "string list" where
  "date_accessors =
     [''getDate'', ''getDay'', ''getFullYear'', ''getHours'', ''getMilliseconds'', ''getMinutes'',
      ''getMonth'', ''getSeconds'', ''getTime'', ''getTimezoneOffset'', ''getUTCDate'',
      ''getUTCDay'', ''getUTCFullYear'', ''getUTCHours'', ''getUTCMilliseconds'',
      ''getUTCMinutes'', ''getUTCMonth'', ''getUTCSeconds'']"

definition Date_prototype :: jsval where
  "Date_prototype = JObj NoSlot
     (ctor ''Date'' # methods DateProto
        (date_accessors @
         [''setDate'', ''setFullYear'', ''setHours'', ''setMilliseconds'', ''setMinutes'',
          ''setMonth'', ''setSeconds'', ''setTime'', ''toDateString'', ''toISOString'',
          ''toJSON'', ''toLocaleDateString'', ''toLocaleString'', ''toLocaleTimeString'',
          ''toString'', ''toTimeString'', ''toUTCString'', ''valueOf''])
      @ [(KSym ''Symbol.toPrimitive'', Prop (JFun (DateProto ''[Symbol.toPrimitive]'')) False False True)])
     Object_prototype"

definition RegExp_prototype :: jsval where
  "RegExp_prototype = JObj NoSlot
     (ctor ''RegExp'' # methods RegExpProto [''compile'', ''exec'', ''test'', ''toString''])
     Object_prototype"

definition Error_prototype :: jsval where
  "Error_prototype = JObj NoSlot
     (ctor ''Error'' # (KStr ''message'', Prop (JStr []) True False True)
        # (KStr ''name'', Prop (JStr ''Error'') True False True)
        # methods ErrorProto [''toString''])
     Object_prototype"

subsection \<open>Boxing and instances\<close>

function string_of_nat :: "nat \<Rightarrow> string" where
  "string_of_nat n =
     (if n < 10 then [''0123456789'' ! n]
      else string_of_nat (n div 10) @ [''0123456789'' ! (n mod 10)])"
  by pat_completeness auto
termination
  by (relation "measure id") auto

declare string_of_nat.simps [simp del]

text \<open>
  \<^verbatim>\<open>new String(s)\<close> is a String exotic object: one non-writable, enumerable, non-configurable
  property per character, then the non-enumerable, non-configurable \<^verbatim>\<open>length\<close>.
\<close>

fun index_props :: "nat \<Rightarrow> string \<Rightarrow> (propkey \<times> jsval pdesc) list" where
  "index_props i [] = []"
| "index_props i (c # cs) =
     (KStr (string_of_nat i), Prop (JStr [c]) False True False) # index_props (Suc i) cs"

definition new_String :: "string \<Rightarrow> jsval" where
  "new_String s = JObj (StringData s)
     (index_props 0 s @ [(KStr ''length'', Prop (JNum (int (length s))) False False False)])
     String_prototype"

definition new_Number :: "int \<Rightarrow> jsval" where
  "new_Number n = JObj (NumberData n) [] Number_prototype"

definition new_Date :: "int \<Rightarrow> jsval" where
  "new_Date t = JObj (DateValue t) [] Date_prototype"

definition new_Error :: "string \<Rightarrow> jsval" where
  "new_Error m = JObj ErrorData [(KStr ''message'', Prop (JStr m) True False True)] Error_prototype"

text \<open>An object literal: every property writable, enumerable and configurable.\<close>

definition object_literal :: "(propkey \<times> jsval) list \<Rightarrow> jsval" where
  "object_literal kvs = JObj NoSlot (map (\<lambda>(k, v). (k, Prop v True True True)) kvs) Object_prototype"

section \<open>The delegation substrate\<close>

text \<open>
  \<^verbatim>\<open>src/util/ProxyWrapper.ts\<close>. Each trap of \<^verbatim>\<open>handlerMethods\<close> is a function of the
  target's two fields, \<open>body\<close> and \<open>extension\<close>. What the traps ask of \<open>body\<close>
  (\<^verbatim>\<open>Object.getPrototypeOf\<close>, \<^verbatim>\<open>Reflect.ownKeys\<close>, \<^verbatim>\<open>in\<close>, property read,
  \<^verbatim>\<open>Object.getOwnPropertyDescriptor\<close>) is defined together with the trap, since \<open>body\<close> may
  itself be a wrapper.
\<close>

definition hasOwnProperty :: "extension \<Rightarrow> propkey \<Rightarrow> bool" where
  "hasOwnProperty obj propKey = (map_of obj propKey \<noteq> None)"

definition proxyKey :: propkey where
  "proxyKey = KSym ''proxy-wrapper.proxy''"

definition nodeInspectCustom :: propkey where
  "nodeInspectCustom = KSym ''nodejs.util.inspect.custom''"

fun js_getPrototypeOf :: "jsval \<Rightarrow> jsval"
  and handler_getPrototypeOf :: "jsval \<Rightarrow> extension \<Rightarrow> jsval" where
  "handler_getPrototypeOf body extension =
     (if typeof body = TObject \<and> body \<noteq> JNull then js_getPrototypeOf body else JNull)"
| "js_getPrototypeOf (JObj s ps p) = p"
| "js_getPrototypeOf (JProxy b e) = handler_getPrototypeOf b e"
| "js_getPrototypeOf (JFun f) = Function_prototype"
| "js_getPrototypeOf (JBound f t) = Function_prototype"
| "js_getPrototypeOf (JThunk v) = Function_prototype"
| "js_getPrototypeOf v = JNull"

text \<open>
  \<^verbatim>\<open>v instanceof C\<close> for a built-in constructor \<open>C\<close> walks the prototype chain of an object
  \<open>v\<close> looking for \<^verbatim>\<open>C.prototype\<close>; a primitive is an instance of nothing.
\<close>

fun proto_chain :: "jsval \<Rightarrow> jsval list" where
  "proto_chain (JObj s ps p) = p # proto_chain p"
| "proto_chain (JProxy b e) = (if typeof b = TObject \<and> b \<noteq> JNull then proto_chain b else [JNull])"
| "proto_chain (JFun f) = [Function_prototype, Object_prototype, JNull]"
| "proto_chain (JBound f t) = [Function_prototype, Object_prototype, JNull]"
| "proto_chain (JThunk v) = [Function_prototype, Object_prototype, JNull]"
| "proto_chain v = []"

definition js_instanceof :: "jsval \<Rightarrow> jsval \<Rightarrow> bool" where
  "js_instanceof v prototype = (prototype \<in> set (proto_chain v))"

fun js_ownKeys :: "jsval \<Rightarrow> propkey list"
  and handler_ownKeys :: "jsval \<Rightarrow> extension \<Rightarrow> propkey list" where
  "handler_ownKeys body extension =
     (let bodyKeys = (if typeof body = TObject \<and> body \<noteq> JNull then js_ownKeys body else [])
      in bodyKeys)"
| "js_ownKeys (JObj s ps p) = map fst ps"
| "js_ownKeys (JProxy b e) = handler_ownKeys b e"
| "js_ownKeys v = []"

fun js_in :: "propkey \<Rightarrow> jsval \<Rightarrow> bool"
  and handler_has :: "jsval \<Rightarrow> extension \<Rightarrow> propkey \<Rightarrow> bool" where
  "handler_has body extension propKey =
     (if hasOwnProperty extension propKey then True
      else if typeof body = TObject \<and> body \<noteq> JNull \<and> js_in propKey body then True
      else if propKey = KStr ''toJSON''
              \<and> (js_instanceof body String_prototype \<or> js_instanceof body Number_prototype) then True
      else if propKey = nodeInspectCustom then True
      else if propKey = proxyKey then True
      else False)"
| "js_in k (JObj s ps p) = (map_of ps k \<noteq> None \<or> js_in k p)"
| "js_in k (JProxy b e) = handler_has b e k"
| "js_in k v = False"

definition cannotProxy :: "jsval \<Rightarrow> bool" where
  "cannotProxy body =
     (js_instanceof body String_prototype
      \<or> js_instanceof body Number_prototype
      \<or> js_instanceof body Date_prototype
      \<or> js_instanceof body RegExp_prototype)"

text \<open>The last statement of the \<^verbatim>\<open>get\<close> trap (lines 102 to 123).\<close>

definition bind_builtin :: "jsval \<Rightarrow> jsval \<Rightarrow> jsval" where
  "bind_builtin body targetProp =
     (if typeof targetProp = TFunction then
        (if cannotProxy body then JBound targetProp body else targetProp)
      else targetProp)"

fun js_get :: "jsval \<Rightarrow> propkey \<Rightarrow> jsval"
  and handler_get :: "jsval \<Rightarrow> extension \<Rightarrow> propkey \<Rightarrow> jsval" where
  "handler_get body extension propKey =
     (if hasOwnProperty extension propKey then
        bind_builtin body (the (map_of extension propKey))
      else if typeof body = TObject \<and> body \<noteq> JNull \<and> js_in propKey body then
        bind_builtin body (js_get body propKey)
      else
        (let targetProp =
           (if propKey = KStr ''toJSON'' then
              (if js_instanceof body String_prototype then JBound (js_get body (KStr ''toString'')) body
               else if js_instanceof body Number_prototype then JBound (js_get body (KStr ''valueOf'')) body
               else JUndefined)
            else JUndefined)
         in if propKey = nodeInspectCustom then JThunk body
            else if propKey = proxyKey then
              object_literal [(KStr ''body'', body), (KStr ''extension'', object_literal extension)]
            else bind_builtin body targetProp))"
| "js_get (JObj s ps p) k = (case map_of ps k of Some d \<Rightarrow> pvalue d | None \<Rightarrow> js_get p k)"
| "js_get (JProxy b e) k = handler_get b e k"
| "js_get v k = JUndefined"

text \<open>
  The descriptor the trap builds for an extension field has no \<^verbatim>\<open>writable\<close> entry;
  the proxy completes it with \<^verbatim>\<open>writable: false\<close>. A proxy refuses (with a type error) a
  descriptor that reports a property as non-configurable when the target has no such
  non-configurable property (ECMAScript, Proxy [[GetOwnProperty]]); the target here is the
  two-field object literal, whose properties are all configurable.
\<close>

fun js_getOwnPropertyDescriptor :: "jsval \<Rightarrow> propkey \<Rightarrow> js_error + jsval pdesc option"
  and handler_getOwnPropertyDescriptor :: "jsval \<Rightarrow> extension \<Rightarrow> propkey \<Rightarrow> js_error + jsval pdesc option" where
  "handler_getOwnPropertyDescriptor body extension propKey =
     (if hasOwnProperty extension propKey then
        Inr (Some (Prop (the (map_of extension propKey)) False False True))
      else
        (if typeof body = TObject \<and> body \<noteq> JNull then js_getOwnPropertyDescriptor body propKey
         else Inr None))"
| "js_getOwnPropertyDescriptor (JObj s ps p) k = Inr (map_of ps k)"
| "js_getOwnPropertyDescriptor (JProxy b e) k =
     (case handler_getOwnPropertyDescriptor b e k of
        Inl err \<Rightarrow> Inl err
      | Inr None \<Rightarrow> Inr None
      | Inr (Some d) \<Rightarrow>
          if configurable d then Inr (Some d)
          else Inl (TypeError ''getOwnPropertyDescriptor on proxy: trap reported non-configurability''))"
| "js_getOwnPropertyDescriptor v k = Inr None"

definition handler_setPrototypeOf :: "bool" where
  "handler_setPrototypeOf = False"

definition handler_isExtensible :: "bool" where
  "handler_isExtensible = False"

definition handler_set :: "js_error + bool" where
  "handler_set = Inl (TypeError ''Unable to modify object'')"

definition handler_defineProperty :: "js_error + bool" where
  "handler_defineProperty = Inl (TypeError ''Unable to modify object'')"

definition handler_deleteProperty :: "js_error + bool" where
  "handler_deleteProperty = Inl (TypeError ''Unable to modify object'')"

definition ProxyWrapper :: "jsval \<Rightarrow> extension \<Rightarrow> js_error + jsval" where
  "ProxyWrapper val extension =
     (if val = JUndefined then Inl (TypeError ''Cannot construct proxy, given `undefined`'')
      else if val = JNull then Inr (JProxy JNull extension)
      else (case val of
          JStr s \<Rightarrow> Inr (JProxy (new_String s) extension)
        | JNum n \<Rightarrow> Inr (JProxy (new_Number n) extension)
        | JBool b \<Rightarrow> Inl (TypeError ''Cannot construct proxy from boolean'')
        | JSym s \<Rightarrow> Inl (TypeError ''Cannot construct proxy from symbol'')
        | _ \<Rightarrow>
            if typeof val \<noteq> TObject then Inl (TypeError ''Cannot construct proxy, given value of unknown type'')
            else Inr (JProxy val extension)))"

section \<open>What an observer of a wrapper sees\<close>

text \<open>
  An operation on a proxy runs the trap and then checks the trap's answer against the target
  (ECMAScript, Proxy Object Internal Methods). The target of a wrapper is the object
  literal \<^verbatim>\<open>{ body, extension }\<close>, with two configurable properties. \<^verbatim>\<open>ProxyWrapper\<close>
  leaves it extensible; the handler has no \<^verbatim>\<open>preventExtensions\<close> trap (line 152), so
  \<^verbatim>\<open>Object.preventExtensions\<close> on a wrapper goes to the target and makes it non-extensible.
  A wrapper in use is therefore a pair: the proxy, and whether its target is still
  extensible. The answer of the \<^verbatim>\<open>isExtensible\<close> trap must be the target's own
  extensibility, or the operation throws (Proxy [[IsExtensible]], steps 7 to 9). The reads
  defined above (\<open>js_get\<close>, \<open>js_ownKeys\<close>, \<open>js_getOwnPropertyDescriptor\<close>, \<open>js_in\<close>) are
  those of a wrapper whose target is extensible; against an extensible target the one check
  that can fail is that no property may be reported non-configurable, which is part of
  \<open>js_getOwnPropertyDescriptor\<close>.
\<close>

type_synonym live = "jsval \<times> bool"

definition fresh :: "jsval \<Rightarrow> live" where
  "fresh w = (w, True)"

fun Object_preventExtensions :: "live \<Rightarrow> js_error + live" where
  "Object_preventExtensions (JProxy b e, extensible) = Inr (JProxy b e, False)"
| "Object_preventExtensions (JObj s ps p, extensible) = Inr (JObj s ps p, False)"
| "Object_preventExtensions (v, extensible) = Inr (v, extensible)"

fun Object_isExtensible :: "live \<Rightarrow> js_error + bool" where
  "Object_isExtensible (JProxy b e, extensible) =
     (let booleanTrapResult = handler_isExtensible; targetResult = extensible
      in if booleanTrapResult \<noteq> targetResult
         then Inl (TypeError ''isExtensible on proxy: trap result does not reflect extensibility of proxy target'')
         else Inr booleanTrapResult)"
| "Object_isExtensible (JObj s ps p, extensible) = Inr extensible"
| "Object_isExtensible (JFun f, extensible) = Inr extensible"
| "Object_isExtensible (JBound f t, extensible) = Inr extensible"
| "Object_isExtensible (JThunk v, extensible) = Inr extensible"
| "Object_isExtensible (v, extensible) = Inr False"

text \<open>
  The four mutations, on a wrapper: \<^verbatim>\<open>w[k] = v\<close>, \<^verbatim>\<open>delete w[k]\<close>,
  \<^verbatim>\<open>Object.defineProperty(w, k, d)\<close> and \<^verbatim>\<open>Object.setPrototypeOf(w, p)\<close>. Each runs its
  trap, and what the trap throws the operation throws. \<^verbatim>\<open>Object.setPrototypeOf\<close> throws
  when the trap answers false; \<^verbatim>\<open>Reflect.setPrototypeOf\<close> returns that answer. The
  operations are defined on wrappers only.
\<close>

fun js_assign :: "jsval \<Rightarrow> propkey \<Rightarrow> jsval \<Rightarrow> js_error + bool" where
  "js_assign (JProxy b e) k v = handler_set"

fun js_delete :: "jsval \<Rightarrow> propkey \<Rightarrow> js_error + bool" where
  "js_delete (JProxy b e) k = handler_deleteProperty"

fun Object_defineProperty :: "jsval \<Rightarrow> propkey \<Rightarrow> jsval pdesc \<Rightarrow> js_error + bool" where
  "Object_defineProperty (JProxy b e) k d = handler_defineProperty"

fun Reflect_setPrototypeOf :: "jsval \<Rightarrow> jsval \<Rightarrow> js_error + bool" where
  "Reflect_setPrototypeOf (JProxy b e) proto = Inr handler_setPrototypeOf"

fun Object_setPrototypeOf :: "jsval \<Rightarrow> jsval \<Rightarrow> js_error + bool" where
  "Object_setPrototypeOf (JProxy b e) proto =
     (case Reflect_setPrototypeOf (JProxy b e) proto of
        Inl err \<Rightarrow> Inl err
      | Inr status \<Rightarrow> if status then Inr True else Inl (TypeError ''Object.setPrototypeOf: proxy trap returned falsish''))"

text \<open>
  Copying the own enumerable properties of an object, as object spread and
  \<^verbatim>\<open>Object.assign\<close> do: for every own key, the descriptor, and for an enumerable one the value.
\<close>

fun copy_props :: "jsval \<Rightarrow> propkey list \<Rightarrow> js_error + (propkey \<times> jsval) list" where
  "copy_props from [] = Inr []"
| "copy_props from (k # ks) =
     (case js_getOwnPropertyDescriptor from k of
        Inl err \<Rightarrow> Inl err
      | Inr None \<Rightarrow> copy_props from ks
      | Inr (Some d) \<Rightarrow>
          if enumerable d then
            (case copy_props from ks of
               Inl err \<Rightarrow> Inl err
             | Inr rest \<Rightarrow> Inr ((k, js_get from k) # rest))
          else copy_props from ks)"

definition spread_object :: "jsval \<Rightarrow> js_error + (propkey \<times> jsval) list" where
  "spread_object from = copy_props from (js_ownKeys from)"

subsection \<open>Calling methods and coercing\<close>

text \<open>
  What a built-in computes is a parameter \<open>impl\<close>, except for the conversions
  \<^verbatim>\<open>String.prototype.toString\<close>, \<^verbatim>\<open>String.prototype.valueOf\<close> and
  \<^verbatim>\<open>Number.prototype.valueOf\<close>. What is modelled of the others is the check of the receiver:
  a method of \<^verbatim>\<open>Number.prototype\<close> needs a receiver with a [[NumberData]] slot, a method of
  \<^verbatim>\<open>Date.prototype\<close> (but the generic \<^verbatim>\<open>toJSON\<close> and \<^verbatim>\<open>[Symbol.toPrimitive]\<close>) one with a
  [[DateValue]] slot, and throws a type error on any other receiver, a proxy included.
\<close>

type_synonym builtins = "fn \<Rightarrow> jsval \<Rightarrow> jsval list \<Rightarrow> js_error + jsval"

fun thisStringValue :: "jsval \<Rightarrow> string option" where
  "thisStringValue (JStr s) = Some s"
| "thisStringValue (JObj (StringData s) ps p) = Some s"
| "thisStringValue v = None"

fun thisNumberValue :: "jsval \<Rightarrow> int option" where
  "thisNumberValue (JNum n) = Some n"
| "thisNumberValue (JObj (NumberData n) ps p) = Some n"
| "thisNumberValue v = None"

fun thisTimeValue :: "jsval \<Rightarrow> int option" where
  "thisTimeValue (JObj (DateValue t) ps p) = Some t"
| "thisTimeValue v = None"

definition call_fn :: "builtins \<Rightarrow> fn \<Rightarrow> jsval \<Rightarrow> jsval list \<Rightarrow> js_error + jsval" where
  "call_fn impl f this args =
     (case f of
        StringProto m \<Rightarrow>
          if m = ''toString'' \<or> m = ''valueOf'' then
            (case thisStringValue this of
               None \<Rightarrow> Inl (TypeError ''String.prototype method requires that this be a String'')
             | Some s \<Rightarrow> Inr (JStr s))
          else impl f this args
      | NumberProto m \<Rightarrow>
          (case thisNumberValue this of
             None \<Rightarrow> Inl (TypeError ''Number.prototype method requires that this be a Number'')
           | Some n \<Rightarrow> if m = ''valueOf'' then Inr (JNum n) else impl f this args)
      | DateProto m \<Rightarrow>
          if m = ''toJSON'' \<or> m = ''[Symbol.toPrimitive]'' then impl f this args
          else
            (case thisTimeValue this of
               None \<Rightarrow> Inl (TypeError ''this is not a Date object'')
             | Some t \<Rightarrow> impl f this args)
      | _ \<Rightarrow> impl f this args)"

fun call :: "builtins \<Rightarrow> jsval \<Rightarrow> jsval \<Rightarrow> jsval list \<Rightarrow> js_error + jsval" where
  "call impl (JBound f t) this args = call impl f t args"
| "call impl (JThunk v) this args = Inr v"
| "call impl (JFun f) this args = call_fn impl f this args"
| "call impl v this args = Inl (TypeError ''not a function'')"

text \<open>\<^verbatim>\<open>obj.name(...args)\<close>, for an object \<open>obj\<close>.\<close>

definition invoke :: "builtins \<Rightarrow> jsval \<Rightarrow> string \<Rightarrow> jsval list \<Rightarrow> js_error + jsval" where
  "invoke impl obj name args = call impl (js_get obj (KStr name)) obj args"

datatype hint = HintDefault | HintNumber | HintString

definition is_primitive :: "jsval \<Rightarrow> bool" where
  "is_primitive v = (v = JNull \<or> (typeof v \<noteq> TObject \<and> typeof v \<noteq> TFunction))"

fun try_methods :: "builtins \<Rightarrow> jsval \<Rightarrow> string list \<Rightarrow> js_error + jsval" where
  "try_methods impl obj [] = Inl (TypeError ''Cannot convert object to primitive value'')"
| "try_methods impl obj (name # names) =
     (let method = js_get obj (KStr name) in
      if typeof method = TFunction then
        (case call impl method obj [] of
           Inl err \<Rightarrow> Inl err
         | Inr result \<Rightarrow> if is_primitive result then Inr result else try_methods impl obj names)
      else try_methods impl obj names)"

definition OrdinaryToPrimitive :: "builtins \<Rightarrow> jsval \<Rightarrow> hint \<Rightarrow> js_error + jsval" where
  "OrdinaryToPrimitive impl obj h =
     try_methods impl obj
       (if h = HintString then [''toString'', ''valueOf''] else [''valueOf'', ''toString''])"

definition hint_name :: "hint \<Rightarrow> string" where
  "hint_name h = (case h of HintDefault \<Rightarrow> ''default'' | HintNumber \<Rightarrow> ''number'' | HintString \<Rightarrow> ''string'')"

definition ToPrimitive :: "builtins \<Rightarrow> jsval \<Rightarrow> hint \<Rightarrow> js_error + jsval" where
  "ToPrimitive impl input h =
     (if is_primitive input then Inr input
      else
        (let exoticToPrim = js_get input (KSym ''Symbol.toPrimitive'') in
         if exoticToPrim \<noteq> JUndefined \<and> exoticToPrim \<noteq> JNull then
           (if typeof exoticToPrim \<noteq> TFunction then Inl (TypeError ''Symbol.toPrimitive is not a function'')
            else
              (case call impl exoticToPrim input [JStr (hint_name h)] of
                 Inl err \<Rightarrow> Inl err
               | Inr result \<Rightarrow>
                   if is_primitive result then Inr result
                   else Inl (TypeError ''Cannot convert object to primitive value'')))
         else OrdinaryToPrimitive impl input (if h = HintDefault then HintNumber else h)))"

definition string_of_int :: "int \<Rightarrow> string" where
  "string_of_int n = (if n < 0 then CHR ''-'' # string_of_nat (nat (- n)) else string_of_nat (nat n))"

text \<open>\<^verbatim>\<open>String(v)\<close> and \<^verbatim>\<open>Number(v)\<close>, called as functions.\<close>

definition js_String :: "builtins \<Rightarrow> jsval \<Rightarrow> js_error + jsval" where
  "js_String impl v =
     (case v of
        JSym d \<Rightarrow> Inr (JStr (''Symbol('' @ d @ '')''))
      | _ \<Rightarrow>
        (case ToPrimitive impl v HintString of
           Inl err \<Rightarrow> Inl err
         | Inr p \<Rightarrow>
            (case p of
               JStr s \<Rightarrow> Inr (JStr s)
             | JNum n \<Rightarrow> Inr (JStr (string_of_int n))
             | JBigInt n \<Rightarrow> Inr (JStr (string_of_int n))
             | JBool b \<Rightarrow> Inr (JStr (if b then ''true'' else ''false''))
             | JNull \<Rightarrow> Inr (JStr ''null'')
             | JUndefined \<Rightarrow> Inr (JStr ''undefined'')
             | _ \<Rightarrow> Inl (TypeError ''Cannot convert a Symbol value to a string''))))"

definition js_Number :: "builtins \<Rightarrow> jsval \<Rightarrow> js_error + jsval" where
  "js_Number impl v =
     (case ToPrimitive impl v HintNumber of
        Inl err \<Rightarrow> Inl err
      | Inr p \<Rightarrow>
         (case p of
            JNum n \<Rightarrow> Inr (JNum n)
          | JBigInt n \<Rightarrow> Inr (JNum n)
          | JBool b \<Rightarrow> Inr (JNum (if b then 1 else 0))
          | JNull \<Rightarrow> Inr (JNum 0)
          | JSym d \<Rightarrow> Inl (TypeError ''Cannot convert a Symbol value to a number'')
          | _ \<Rightarrow> impl (Ctor ''Number'') p []))"

section \<open>Status and the Loadable capability\<close>

text \<open>
  The module that defines \<^verbatim>\<open>Status\<close>, \<^verbatim>\<open>Loadable\<close>, the two constructors and the transition
  operations (\<^verbatim>\<open>./Status.js\<close> and \<^verbatim>\<open>./Loadable.js\<close>, imported at lines 3 and 4 of the
  completion protocol) is not among the source files; its unit tests are
  (\<^verbatim>\<open>src/unnamed/part_000\<close>). The types below are the ones the completion protocol is
  written against; the operations further down are modelled from the spec.
\<close>

record status =
  ready :: bool
  loading :: bool
  error :: jsval

record status_patch =
  p_ready :: "bool option"
  p_loading :: "bool option"
  p_error :: "jsval option"

definition defaultStatus :: status where
  "defaultStatus = \<lparr>ready = False, loading = False, error = JNull\<rparr>"

definition no_patch :: status_patch where
  "no_patch = \<lparr>p_ready = None, p_loading = None, p_error = None\<rparr>"

definition whole :: "status \<Rightarrow> status_patch" where
  "whole st = \<lparr>p_ready = Some (ready st), p_loading = Some (loading st), p_error = Some (error st)\<rparr>"

text \<open>\<^verbatim>\<open>{ ...st, ...patch }\<close>\<close>

definition merge_status :: "status \<Rightarrow> status_patch \<Rightarrow> status" where
  "merge_status st patch =
     \<lparr>ready = (case p_ready patch of None \<Rightarrow> ready st | Some b \<Rightarrow> b),
      loading = (case p_loading patch of None \<Rightarrow> loading st | Some b \<Rightarrow> b),
      error = (case p_error patch of None \<Rightarrow> error st | Some e \<Rightarrow> e)\<rparr>"

text \<open>The three reserved access points are symbols (their descriptions: lines 64, 73, 82 of the tests).\<close>

definition itemKey :: propkey where
  "itemKey = KSym ''lifecycle.loadable.item''"

definition statusKey :: propkey where
  "statusKey = KSym ''lifecycle.loadable.status''"

definition constructKey :: propkey where
  "constructKey = KSym ''lifecycle.loadable.construct''"

definition status_to_js :: "status \<Rightarrow> jsval" where
  "status_to_js st =
     object_literal [(KStr ''ready'', JBool (ready st)), (KStr ''loading'', JBool (loading st)),
                     (KStr ''error'', error st)]"

text \<open>
  The flags of a status are read where the code tests them (\<^verbatim>\<open>!item[statusKey].loading\<close>,
  \<^verbatim>\<open>!item[statusKey].ready\<close>), that is, by their truthiness.
\<close>

fun ToBoolean :: "jsval \<Rightarrow> bool" where
  "ToBoolean JUndefined = False"
| "ToBoolean JNull = False"
| "ToBoolean (JBool b) = b"
| "ToBoolean (JNum n) = (n \<noteq> 0)"
| "ToBoolean (JBigInt n) = (n \<noteq> 0)"
| "ToBoolean (JStr s) = (s \<noteq> [])"
| "ToBoolean v = True"

definition status_of_js :: "jsval \<Rightarrow> status" where
  "status_of_js v =
     \<lparr>ready = ToBoolean (js_get v (KStr ''ready'')),
      loading = ToBoolean (js_get v (KStr ''loading'')),
      error = js_get v (KStr ''error'')\<rparr>"

text \<open>
  A Loadable is either a record (its item and status held directly) or a delegation wrapper
  whose extension holds them; the item and the status of a wrapper are read through its
  \<^verbatim>\<open>get\<close> trap.
\<close>

datatype loadable = LRecord jsval status | LProxy jsval

fun item_of :: "loadable \<Rightarrow> jsval" where
  "item_of (LRecord i st) = i"
| "item_of (LProxy w) = js_get w itemKey"

fun status_of :: "loadable \<Rightarrow> status" where
  "status_of (LRecord i st) = st"
| "status_of (LProxy w) = status_of_js (js_get w statusKey)"

fun is_proxy :: "loadable \<Rightarrow> bool" where
  "is_proxy (LRecord i st) = False"
| "is_proxy (LProxy w) = True"

text \<open>
  Modelled from the spec: the constructor \<^verbatim>\<open>LoadableRecord\<close> (section 4.3), which is missing
  from the source files. The item defaults to \<^verbatim>\<open>undefined\<close>, the status to the default
  status with the fields of the patch laid over it.
\<close>

definition LoadableRecord :: "jsval \<Rightarrow> status_patch \<Rightarrow> loadable" where
  "LoadableRecord itm patch = LRecord itm (merge_status defaultStatus patch)"

text \<open>
  Modelled from the spec: the constructor \<^verbatim>\<open>LoadableProxy\<close> (section 4.4), which is missing
  from the source files. It builds a delegation wrapper over the item, with an extension
  that holds the three reserved access points, computed as for the record. The substrate
  refuses \<^verbatim>\<open>undefined\<close>, and the spec (with the test at lines 314 to 322) accepts an
  \<^verbatim>\<open>undefined\<close> item: the wrapper is then built over \<^verbatim>\<open>null\<close>, which has no fields
  either, and the item access point holds \<^verbatim>\<open>undefined\<close>.
\<close>

definition loadable_extension :: "jsval \<Rightarrow> status_patch \<Rightarrow> extension" where
  "loadable_extension itm patch =
     [(itemKey, itm),
      (statusKey, status_to_js (merge_status defaultStatus patch)),
      (constructKey, JFun (UserFn ''LoadableProxy''))]"

definition LoadableProxy :: "jsval \<Rightarrow> status_patch \<Rightarrow> js_error + loadable" where
  "LoadableProxy itm patch =
     (case ProxyWrapper (if itm = JUndefined then JNull else itm) (loadable_extension itm patch) of
        Inl err \<Rightarrow> Inl err
      | Inr w \<Rightarrow> Inr (LProxy w))"

text \<open>
  Modelled from the spec: the rebuild access point (section 3), which is missing from the
  source files. A record rebuilds a record, a wrapper rebuilds a wrapper.
\<close>

fun construct :: "loadable \<Rightarrow> jsval \<Rightarrow> status \<Rightarrow> js_error + loadable" where
  "construct (LRecord i st) itm st' = Inr (LoadableRecord itm (whole st'))"
| "construct (LProxy w) itm st' = LoadableProxy itm (whole st')"

text \<open>
  Modelled from the spec: the transition operations of section 4.6, which are missing from
  the source files. The tests name them \<^verbatim>\<open>update\<close>, \<^verbatim>\<open>asLoading\<close>, \<^verbatim>\<open>asReady\<close> and
  \<^verbatim>\<open>asFailed\<close>; the spec calls the last three markLoading, markReady and markFailed. An
  omitted \<^verbatim>\<open>newItem\<close> is \<^verbatim>\<open>undefined\<close>.
\<close>

definition update :: "loadable \<Rightarrow> jsval \<Rightarrow> status_patch \<Rightarrow> js_error + loadable" where
  "update l itm patch = construct l itm (merge_status (status_of l) patch)"

definition asLoading :: "loadable \<Rightarrow> js_error + loadable" where
  "asLoading l =
     construct l (item_of l) \<lparr>ready = (item_of l \<noteq> JUndefined), loading = True, error = JNull\<rparr>"

definition asReady :: "loadable \<Rightarrow> jsval \<Rightarrow> js_error + loadable" where
  "asReady l newItem =
     (let finalItem = (if newItem \<noteq> JUndefined then newItem else item_of l) in
      if finalItem = JUndefined then Inl (TypeError ''Expected an item, but given `undefined`'')
      else construct l finalItem \<lparr>ready = True, loading = False, error = JNull\<rparr>)"

definition asFailed :: "loadable \<Rightarrow> jsval \<Rightarrow> js_error + loadable" where
  "asFailed l reason =
     construct l (item_of l) \<lparr>ready = (item_of l \<noteq> JUndefined), loading = False, error = reason\<rparr>"

section \<open>The completion protocol\<close>

text \<open>
  \<^verbatim>\<open>src/unnamed/part_001\<close>: \<^verbatim>\<open>LoadError\<close> and \<^verbatim>\<open>LoadablePromise\<close>. The message of an error
  is kept as the text of its template, without the interpolated values (the formatting
  helper \<^verbatim>\<open>$msg\<close> is outside the repository); a \<^verbatim>\<open>LoadError\<close> keeps the interpolated
  message of its cause.
\<close>

record load_error =
  le_message :: jsval
  le_item :: loadable

definition LoadError_new :: "jsval \<Rightarrow> loadable \<Rightarrow> load_error" where
  "LoadError_new reason itm =
     (let message = (if js_instanceof reason Error_prototype then js_get reason (KStr ''message'') else JStr [])
      in \<lparr>le_message = message, le_item = itm\<rparr>)"

text \<open>
  The promise that a \<^verbatim>\<open>LoadablePromise\<close> extends is the built-in one. Its state, the
  flag shared by its two resolving functions, the reactions registered by \<^verbatim>\<open>then\<close> and the
  queue of jobs (microtasks) are explicit.

  A value is a thenable when its \<^verbatim>\<open>then\<close> is callable. A record has no \<^verbatim>\<open>then\<close>; a
  delegation wrapper has the one its \<^verbatim>\<open>get\<close> trap answers, so a wrapper over an object with
  a \<^verbatim>\<open>then\<close> method is a thenable. The built-in resolving function does not fulfil a
  promise with a thenable: it queues a job that calls the thenable's \<^verbatim>\<open>then\<close> with a fresh
  pair of resolving functions, and the promise stays pending until the thenable uses one of
  them (ECMAScript, Promise Resolve Functions, steps 8 to 15).

  A promise is fulfilled with, and a subscriber is called with, a Loadable or some other
  value (\<open>arg\<close>). A reaction is either the pair of handlers that \<^verbatim>\<open>subscribe\<close> passes to
  \<^verbatim>\<open>then\<close> (lines 105 to 108), for the subscriber of that number, or the handlers of some
  other consumer. A subscriber is an observer: it records what it was called with and does
  not throw. The record \<open>world\<close> holds the fields of the one \<^verbatim>\<open>LoadablePromise\<close> under
  study (\<open>state\<close>, \<open>reactions\<close> and \<open>resolved\<close> inherited, \<open>fulfilled\<close> and \<open>item\<close> its own),
  whether a thenable it was resolved with has been handed its resolving functions
  (\<open>adopting\<close>) and, around the object, the job queue, the calls made to subscribers and the
  outcomes handed to consumers, each oldest first.
\<close>

fun thenable :: "loadable \<Rightarrow> bool" where
  "thenable (LRecord i st) = False"
| "thenable (LProxy w) = (typeof (js_get w (KStr ''then'')) = TFunction)"

datatype arg = ArgLoadable loadable | ArgValue jsval

fun arg_thenable :: "arg \<Rightarrow> bool" where
  "arg_thenable (ArgLoadable l) = thenable l"
| "arg_thenable (ArgValue v) = (typeof (js_get v (KStr ''then'')) = TFunction)"

datatype rejection = RLoadError load_error | RThrown js_error

datatype pstate = Pending | Fulfilled arg | Rejected rejection

datatype reaction = Subscribed nat | Consumer nat

datatype job = ReactionJob reaction pstate | ThenableJob loadable

record world =
  state :: pstate
  reactions :: "reaction list"
  resolved :: bool
  fulfilled :: bool
  item :: loadable
  adopting :: bool
  queue :: "job list"
  calls :: "(nat \<times> arg) list"
  delivered :: "(nat \<times> pstate) list"

text \<open>
  What the executor does while the constructor runs it: it keeps the two callbacks for later
  and returns, or it throws. An executor that calls one of the callbacks before the
  constructor has returned is not modelled (the callbacks write \<^verbatim>\<open>this.fulfilled\<close>, and
  \<^verbatim>\<open>this\<close> is not bound until \<^verbatim>\<open>super\<close> has returned).
\<close>

datatype executor = Defers | Throws jsval

definition run_executor :: "executor \<Rightarrow> js_error + unit" where
  "run_executor executor = (case executor of Defers \<Rightarrow> Inr () | Throws v \<Rightarrow> Inl (Thrown v))"

text \<open>The function passed to \<^verbatim>\<open>super\<close> (lines 63 to 88), as far as the constructor runs it.\<close>

definition super_executor :: "executor \<Rightarrow> loadable \<Rightarrow> js_error + unit" where
  "super_executor executor itm =
     (if \<not> loading (status_of itm) then Inl (TypeError ''Expected item with status loading'')
      else run_executor executor)"

text \<open>
  The built-in constructor \<^verbatim>\<open>Promise(executor)\<close> calls the executor; when the executor
  throws, it rejects the new promise with the thrown value (through the reject function,
  which sets the shared flag), and returns the promise either way (ECMAScript, the Promise
  constructor, steps 9 to 11).
\<close>

definition Promise_new :: "js_error + unit \<Rightarrow> pstate" where
  "Promise_new completion = (case completion of Inl thrown \<Rightarrow> Rejected (RThrown thrown) | Inr u \<Rightarrow> Pending)"

definition LoadablePromise_new :: "executor \<Rightarrow> loadable \<Rightarrow> js_error + world" where
  "LoadablePromise_new executor itm =
     Inr \<lparr>state = Promise_new (super_executor executor itm), reactions = [],
          resolved = (Promise_new (super_executor executor itm) \<noteq> Pending), fulfilled = False,
          item = itm, adopting = False, queue = [], calls = [], delivered = []\<rparr>"

text \<open>
  Settling a pending promise sets the state and queues one job per registered reaction, in
  the order of registration. The two resolving functions handed to the executor do nothing
  once one of them has been called; otherwise \<^verbatim>\<open>resolve\<close> follows a thenable or fulfils,
  and \<^verbatim>\<open>reject\<close> rejects.
\<close>

definition settle :: "pstate \<Rightarrow> world \<Rightarrow> world" where
  "settle outcome w =
     (if state w \<noteq> Pending then w
      else w\<lparr>state := outcome, reactions := [],
             queue := queue w @ map (\<lambda>r. ReactionJob r outcome) (reactions w)\<rparr>)"

definition promise_resolve :: "loadable \<Rightarrow> world \<Rightarrow> world" where
  "promise_resolve resolution w =
     (if resolved w then w
      else if thenable resolution then
        w\<lparr>resolved := True, queue := queue w @ [ThenableJob resolution]\<rparr>
      else settle (Fulfilled (ArgLoadable resolution)) (w\<lparr>resolved := True\<rparr>))"

definition promise_reject :: "rejection \<Rightarrow> world \<Rightarrow> world" where
  "promise_reject reason w =
     (if resolved w then w else settle (Rejected reason) (w\<lparr>resolved := True\<rparr>))"

text \<open>The two callbacks handed to the executor (lines 71 to 78 and 79 to 86), called after construction.\<close>

definition resolve_wrapper :: "loadable \<Rightarrow> world \<Rightarrow> js_error + world" where
  "resolve_wrapper itm w =
     (if \<not> ready (status_of itm) then Inl (TypeError ''Expected item with status ready'')
      else Inr (promise_resolve itm (w\<lparr>fulfilled := True\<rparr>)))"

definition reject_wrapper :: "loadable \<Rightarrow> world \<Rightarrow> js_error + world" where
  "reject_wrapper itm w =
     (if \<not> ToBoolean (error (status_of itm)) then Inl (TypeError ''Expected item with status failed'')
      else Inr (promise_reject (RLoadError (LoadError_new (error (status_of itm)) itm))
                  (w\<lparr>fulfilled := True\<rparr>)))"

text \<open>
  \<^verbatim>\<open>then\<close> makes the promise it returns with the species of the receiver's class.
  \<^verbatim>\<open>LoadablePromise\<close> sets its species to \<^verbatim>\<open>Promise\<close> (line 47). With the inherited
  species, \<^verbatim>\<open>then\<close> would call \<^verbatim>\<open>new LoadablePromise(executor)\<close> without an item, the check
  at line 66 would throw before the executor is run, and \<^verbatim>\<open>then\<close> would fail with a type
  error for want of resolving functions.
\<close>

datatype promise_class = PromiseClass | LoadablePromiseClass

datatype promise_ref = Self | Derived promise_class

definition species :: "promise_class \<Rightarrow> promise_class" where
  "species c = (case c of LoadablePromiseClass \<Rightarrow> PromiseClass | PromiseClass \<Rightarrow> PromiseClass)"

definition NewPromiseCapability :: "promise_class \<Rightarrow> js_error + promise_ref" where
  "NewPromiseCapability c =
     (case c of
        PromiseClass \<Rightarrow> Inr (Derived PromiseClass)
      | LoadablePromiseClass \<Rightarrow> Inl (TypeError ''Promise resolve or reject function is not callable''))"

definition class_of :: "promise_ref \<Rightarrow> promise_class" where
  "class_of r = (case r of Self \<Rightarrow> LoadablePromiseClass | Derived c \<Rightarrow> c)"

text \<open>\<^verbatim>\<open>subscribe\<close> is a method of \<^verbatim>\<open>LoadablePromise.prototype\<close>, \<^verbatim>\<open>item\<close> a field its constructor sets.\<close>

definition has_subscribe :: "promise_ref \<Rightarrow> bool" where
  "has_subscribe r = (class_of r = LoadablePromiseClass)"

definition has_item :: "promise_ref \<Rightarrow> bool" where
  "has_item r = (class_of r = LoadablePromiseClass)"

definition promise_then :: "reaction \<Rightarrow> world \<Rightarrow> js_error + promise_ref \<times> world" where
  "promise_then r w =
     (case NewPromiseCapability (species (class_of Self)) of
        Inl err \<Rightarrow> Inl err
      | Inr derived \<Rightarrow>
          Inr (derived,
               if state w = Pending then w\<lparr>reactions := reactions w @ [r]\<rparr>
               else w\<lparr>queue := queue w @ [ReactionJob r (state w)]\<rparr>))"

definition subscribe :: "nat \<Rightarrow> world \<Rightarrow> js_error + promise_ref \<times> world" where
  "subscribe subscriber w =
     (let w1 = (if \<not> fulfilled w then w\<lparr>calls := calls w @ [(subscriber, ArgLoadable (item w))]\<rparr> else w)
      in case promise_then (Subscribed subscriber) w1 of
           Inl err \<Rightarrow> Inl err
         | Inr (derived, w2) \<Rightarrow> Inr (Self, w2))"

text \<open>
  \<^verbatim>\<open>reason.item\<close>, as the rejection handler of \<^verbatim>\<open>subscribe\<close> reads it (line 107): the item
  of a \<^verbatim>\<open>LoadError\<close>; \<^verbatim>\<open>undefined\<close> for a \<^verbatim>\<open>TypeError\<close>, which has no such field; a type
  error when the reason is \<^verbatim>\<open>undefined\<close> or \<^verbatim>\<open>null\<close>.
\<close>

definition reason_item :: "rejection \<Rightarrow> js_error + arg" where
  "reason_item reason =
     (case reason of
        RLoadError le \<Rightarrow> Inr (ArgLoadable (le_item le))
      | RThrown (TypeError m) \<Rightarrow> Inr (ArgValue JUndefined)
      | RThrown (Thrown v) \<Rightarrow>
          if v = JUndefined \<or> v = JNull then Inl (TypeError ''Cannot read properties of undefined'')
          else Inr (ArgValue (js_get v (KStr ''item''))))"

text \<open>
  A reaction job calls the handler for the outcome; the job of a thenable calls its
  \<^verbatim>\<open>then\<close>, from when on the thenable holds the resolving functions.
\<close>

definition run_job :: "job \<Rightarrow> world \<Rightarrow> world" where
  "run_job j w =
     (case j of
        ReactionJob (Subscribed subscriber) (Fulfilled itemReady) \<Rightarrow>
          w\<lparr>calls := calls w @ [(subscriber, itemReady)]\<rparr>
      | ReactionJob (Subscribed subscriber) (Rejected reason) \<Rightarrow>
          (case reason_item reason of
             Inl err \<Rightarrow> w
           | Inr a \<Rightarrow> w\<lparr>calls := calls w @ [(subscriber, a)]\<rparr>)
      | ReactionJob (Subscribed subscriber) Pending \<Rightarrow> w
      | ReactionJob (Consumer c) outcome \<Rightarrow> w\<lparr>delivered := delivered w @ [(c, outcome)]\<rparr>
      | ThenableJob resolution \<Rightarrow> w\<lparr>adopting := True\<rparr>)"

definition microtask :: "world \<Rightarrow> world" where
  "microtask w = (case queue w of [] \<Rightarrow> w | j # jobs \<Rightarrow> run_job j (w\<lparr>queue := jobs\<rparr>))"

text \<open>
  What can happen to the object after construction: one of the two callbacks is called,
  someone subscribes or chains, the next queued job runs, or a thenable that holds the
  resolving functions uses one (to fulfil with a value that is not a thenable, or to
  reject; resolving with a further thenable leaves the promise pending). An exception goes
  to the caller and leaves the object as it was.
\<close>

datatype event = CallResolve loadable | CallReject loadable | CallSubscribe nat | CallThen nat
  | Microtask | ThenableFulfils arg | ThenableRejects jsval

definition step :: "event \<Rightarrow> world \<Rightarrow> world" where
  "step e w =
     (case e of
        CallResolve itm \<Rightarrow> (case resolve_wrapper itm w of Inl err \<Rightarrow> w | Inr w' \<Rightarrow> w')
      | CallReject itm \<Rightarrow> (case reject_wrapper itm w of Inl err \<Rightarrow> w | Inr w' \<Rightarrow> w')
      | CallSubscribe s \<Rightarrow> (case subscribe s w of Inl err \<Rightarrow> w | Inr (r, w') \<Rightarrow> w')
      | CallThen c \<Rightarrow> (case promise_then (Consumer c) w of Inl err \<Rightarrow> w | Inr (r, w') \<Rightarrow> w')
      | Microtask \<Rightarrow> microtask w
      | ThenableFulfils a \<Rightarrow>
          if adopting w \<and> \<not> arg_thenable a then settle (Fulfilled a) w else w
      | ThenableRejects v \<Rightarrow>
          if adopting w then settle (Rejected (RThrown (Thrown v))) w else w)"

fun run :: "event list \<Rightarrow> world \<Rightarrow> world" where
  "run [] w = w"
| "run (e # es) w = run es (step e w)"

definition drain :: "world \<Rightarrow> world" where
  "drain w = run (replicate (length (queue w)) Microtask) w"

definition calls_of :: "nat \<Rightarrow> world \<Rightarrow> arg list" where
  "calls_of subscriber w = map snd (filter (\<lambda>c. fst c = subscriber) (calls w))"

text \<open>An event that hands the promise a thenable to follow.\<close>

definition follows_thenable :: "event \<Rightarrow> bool" where
  "follows_thenable e =
     (case e of CallResolve itm \<Rightarrow> ready (status_of itm) \<and> thenable itm | _ \<Rightarrow> False)"

section \<open>Predicates used in the statements\<close>

text \<open>A rejection is a load failure when it is a \<^verbatim>\<open>LoadError\<close> whose item carries an error.\<close>

fun load_failure :: "rejection \<Rightarrow> bool" where
  "load_failure (RLoadError le) = ToBoolean (error (status_of (le_item le)))"
| "load_failure (RThrown e) = False"

text \<open>
  An outcome is well settled when it came through one of the two callbacks: a ready
  Loadable that is not a thenable, or a load failure.
\<close>

fun well_settled :: "pstate \<Rightarrow> bool" where
  "well_settled (Rejected r) = load_failure r"
| "well_settled (Fulfilled (ArgLoadable itm)) = (ready (status_of itm) \<and> \<not> thenable itm)"
| "well_settled (Fulfilled (ArgValue v)) = False"
| "well_settled Pending = True"

text \<open>The item a subscriber is called with when the promise has settled with the given outcome.\<close>

fun terminal :: "pstate \<Rightarrow> arg" where
  "terminal (Fulfilled a) = a"
| "terminal (Rejected (RLoadError le)) = ArgLoadable (le_item le)"
| "terminal st = ArgValue JUndefined"

text \<open>The queued jobs of a subscriber, as the outcomes they will deliver.\<close>

fun job_for :: "nat \<Rightarrow> job \<Rightarrow> pstate list" where
  "job_for subscriber (ReactionJob r outcome) = (if r = Subscribed subscriber then [outcome] else [])"
| "job_for subscriber (ThenableJob resolution) = []"

definition jobs_of :: "nat \<Rightarrow> world \<Rightarrow> pstate list" where
  "jobs_of subscriber w = concat (map (job_for subscriber) (queue w))"

text \<open>A subscriber the object has not heard of.\<close>

definition unknown :: "nat \<Rightarrow> world \<Rightarrow> bool" where
  "unknown subscriber w =
     (calls_of subscriber w = [] \<and> Subscribed subscriber \<notin> set (reactions w) \<and> jobs_of subscriber w = [])"

text \<open>
  A subscriber that subscribed once, while the promise was pending with item \<open>itm\<close>: until
  the promise settles it has been called once, with \<open>itm\<close>, and is registered once; from then
  on either its one job is queued, or the job has run and it has been called a second time,
  with the terminal item.
\<close>

definition watching :: "nat \<Rightarrow> loadable \<Rightarrow> world \<Rightarrow> bool" where
  "watching subscriber itm w =
     (if state w = Pending then
        count_list (reactions w) (Subscribed subscriber) = 1
        \<and> jobs_of subscriber w = []
        \<and> calls_of subscriber w = [ArgLoadable itm]
      else
        well_settled (state w)
        \<and> Subscribed subscriber \<notin> set (reactions w)
        \<and> ((jobs_of subscriber w = [state w] \<and> calls_of subscriber w = [ArgLoadable itm])
           \<or> (jobs_of subscriber w = []
               \<and> calls_of subscriber w = [ArgLoadable itm, terminal (state w)])))"

text \<open>Every outcome that is in the object, in a queued job or in a consumer's hands is well settled.\<close>

fun job_well :: "job \<Rightarrow> bool" where
  "job_well (ReactionJob r outcome) = well_settled outcome"
| "job_well (ThenableJob resolution) = True"

definition all_well_settled :: "world \<Rightarrow> bool" where
  "all_well_settled w =
     (well_settled (state w)
      \<and> list_all job_well (queue w)
      \<and> list_all (\<lambda>d. well_settled (snd d)) (delivered w))"

text \<open>
  A promise that has followed no thenable: its resolving functions have been used exactly
  when it has settled, and no thenable holds resolving functions or waits in the queue.
\<close>

fun thenable_job :: "job \<Rightarrow> bool" where
  "thenable_job (ReactionJob r outcome) = False"
| "thenable_job (ThenableJob resolution) = True"

definition plain_world :: "world \<Rightarrow> bool" where
  "plain_world w =
     ((resolved w \<longleftrightarrow> state w \<noteq> Pending) \<and> \<not> adopting w \<and> \<not> list_ex thenable_job (queue w))"

text \<open>The item is never written, and a pending promise that has followed no thenable has not set its flag.\<close>

definition steady :: "loadable \<Rightarrow> world \<Rightarrow> bool" where
  "steady itm w = (item w = itm \<and> (state w = Pending \<longrightarrow> \<not> fulfilled w))"

text \<open>The invariants of an object that has followed no thenable, together.\<close>

definition sound :: "loadable \<Rightarrow> world \<Rightarrow> bool" where
  "sound itm w = (plain_world w \<and> all_well_settled w \<and> steady itm w)"

text \<open>Three Loadables to run the protocol on: one being loaded, one ready, one failed.\<close>

definition sample_loading :: loadable where
  "sample_loading = LRecord JUndefined \<lparr>ready = False, loading = True, error = JNull\<rparr>"

definition sample_ready :: loadable where
  "sample_ready = LRecord (JStr ''data'') \<lparr>ready = True, loading = False, error = JNull\<rparr>"

definition sample_failed :: loadable where
  "sample_failed = LRecord JUndefined \<lparr>ready = False, loading = False, error = new_Error ''timeout''\<rparr>"

text \<open>
  A ready Loadable that is a thenable: the proxy representation of an object with a
  \<^verbatim>\<open>then\<close> method.
\<close>

definition thenable_body :: jsval where
  "thenable_body = object_literal [(KStr ''then'', JFun (UserFn ''then''))]"

definition sample_thenable :: loadable where
  "sample_thenable =
     LProxy (JProxy thenable_body
       [(itemKey, thenable_body),
        (statusKey, status_to_js \<lparr>ready = True, loading = False, error = JNull\<rparr>),
        (constructKey, JFun (UserFn ''LoadableProxy''))])"

text \<open>The two items of the unit tests: \<^verbatim>\<open>{ name: 'john' }\<close> and \<^verbatim>\<open>{ name: 'alice' }\<close>.\<close>

definition john :: jsval where
  "john = object_literal [(KStr ''name'', JStr ''john'')]"

definition alice :: jsval where
  "alice = object_literal [(KStr ''name'', JStr ''alice'')]"

section \<open>Invariants of the completion protocol\<close>

text \<open>The constructor returns an object whatever it is given; the check at line 66 decides only its state.\<close>

lemma constructor_returns:
  "\<exists>w. LoadablePromise_new exec itm = Inr w
       \<and> (\<not> loading (status_of itm) \<longrightarrow>
            state w = Rejected (RThrown (TypeError ''Expected item with status loading'')))
       \<and> (loading (status_of itm) \<and> exec = Defers \<longrightarrow> state w = Pending)"
  by (simp add: LoadablePromise_new_def Promise_new_def super_executor_def run_executor_def)

lemma run_invariant:
  assumes "P w" and "\<And>e w. e \<in> set evs \<Longrightarrow> P w \<Longrightarrow> P (step e w)"
  shows "P (run evs w)"
  using assms by (induction evs arbitrary: w) auto

lemma jobs_of_reactions:
  "concat (map (job_for s \<circ> (\<lambda>r. ReactionJob r out)) rs)
     = replicate (count_list rs (Subscribed s)) out"
  by (induction rs) auto

lemma count_list_0: "x \<notin> set xs \<Longrightarrow> count_list xs x = 0"
  by (induction xs) auto

lemma settle_fields [simp]:
  "calls (settle out w) = calls w" "item (settle out w) = item w"
  "fulfilled (settle out w) = fulfilled w" "delivered (settle out w) = delivered w"
  "resolved (settle out w) = resolved w" "adopting (settle out w) = adopting w"
  by (auto simp: settle_def)

lemma calls_of_settle [simp]: "calls_of s (settle out w) = calls_of s w"
  by (simp add: calls_of_def)

lemma calls_of_upd [simp]:
  "calls_of s (w\<lparr>fulfilled := b\<rparr>) = calls_of s w"
  "calls_of s (w\<lparr>resolved := b\<rparr>) = calls_of s w"
  "calls_of s (w\<lparr>adopting := b\<rparr>) = calls_of s w"
  "calls_of s (w\<lparr>queue := q\<rparr>) = calls_of s w"
  "calls_of s (w\<lparr>reactions := rs\<rparr>) = calls_of s w"
  "calls_of s (w\<lparr>delivered := d\<rparr>) = calls_of s w"
  "calls_of s (w\<lparr>state := st\<rparr>) = calls_of s w"
  "calls_of s (w\<lparr>calls := calls w @ [(s', a)]\<rparr>) = calls_of s w @ (if s' = s then [a] else [])"
  by (auto simp: calls_of_def)

lemma jobs_of_upd [simp]:
  "jobs_of s (w\<lparr>fulfilled := b\<rparr>) = jobs_of s w"
  "jobs_of s (w\<lparr>resolved := b\<rparr>) = jobs_of s w"
  "jobs_of s (w\<lparr>adopting := b\<rparr>) = jobs_of s w"
  "jobs_of s (w\<lparr>calls := c\<rparr>) = jobs_of s w"
  "jobs_of s (w\<lparr>reactions := rs\<rparr>) = jobs_of s w"
  "jobs_of s (w\<lparr>delivered := d\<rparr>) = jobs_of s w"
  "jobs_of s (w\<lparr>state := st\<rparr>) = jobs_of s w"
  "jobs_of s (w\<lparr>queue := queue w @ [j]\<rparr>) = jobs_of s w @ job_for s j"
  by (auto simp: jobs_of_def)

lemma jobs_of_settle:
  "jobs_of s (settle out w) =
     (if state w = Pending then jobs_of s w @ replicate (count_list (reactions w) (Subscribed s)) out
      else jobs_of s w)"
  by (simp add: settle_def jobs_of_def jobs_of_reactions)

lemma reactions_settle:
  "reactions (settle out w) = (if state w = Pending then [] else reactions w)"
  by (simp add: settle_def)

lemma state_settle:
  "state (settle out w) = (if state w = Pending then out else state w)"
  by (simp add: settle_def)

text \<open>On a promise that has followed no thenable, the two resolving functions settle it.\<close>

lemma plain_world_upd [simp]:
  "plain_world (w\<lparr>fulfilled := b\<rparr>) = plain_world w"
  "plain_world (w\<lparr>calls := c\<rparr>) = plain_world w"
  "plain_world (w\<lparr>delivered := d\<rparr>) = plain_world w"
  "plain_world (w\<lparr>reactions := rs\<rparr>) = plain_world w"
  by (simp_all add: plain_world_def)

lemma promise_resolve_plain:
  "plain_world w \<Longrightarrow> \<not> thenable t \<Longrightarrow>
     promise_resolve t w = (settle (Fulfilled (ArgLoadable t)) w)\<lparr>resolved := True\<rparr>"
  by (cases w) (auto simp: promise_resolve_def plain_world_def settle_def)

lemma promise_reject_plain:
  "plain_world w \<Longrightarrow> promise_reject r w = (settle (Rejected r) w)\<lparr>resolved := True\<rparr>"
  by (cases w) (auto simp: promise_reject_def plain_world_def settle_def)

lemma plain_settle:
  "plain_world w \<Longrightarrow> out \<noteq> Pending \<Longrightarrow> plain_world ((settle out w)\<lparr>resolved := True\<rparr>)"
  by (auto simp: plain_world_def settle_def list_ex_iff)

text \<open>What an event does to a promise that has followed no thenable, when it hands it none.\<close>

lemma step_plain:
  assumes "plain_world w" "\<not> follows_thenable e"
  shows "step e w =
     (case e of
        CallResolve t \<Rightarrow>
          if ready (status_of t)
          then (settle (Fulfilled (ArgLoadable t)) (w\<lparr>fulfilled := True\<rparr>))\<lparr>resolved := True\<rparr>
          else w
      | CallReject t \<Rightarrow>
          if ToBoolean (error (status_of t))
          then (settle (Rejected (RLoadError (LoadError_new (error (status_of t)) t)))
                  (w\<lparr>fulfilled := True\<rparr>))\<lparr>resolved := True\<rparr>
          else w
      | CallSubscribe s \<Rightarrow> snd (projr (subscribe s w))
      | CallThen c \<Rightarrow> snd (projr (promise_then (Consumer c) w))
      | Microtask \<Rightarrow> microtask w
      | ThenableFulfils a \<Rightarrow> w
      | ThenableRejects v \<Rightarrow> w)"
  using assms
  by (cases e)
     (auto simp: step_def resolve_wrapper_def reject_wrapper_def follows_thenable_def
        promise_resolve_plain promise_reject_plain subscribe_def promise_then_def
        NewPromiseCapability_def species_def class_of_def Let_def plain_world_def)


lemma subscribe_result:
  "subscribe s w =
     Inr (Self, (if state w = Pending
                 then (\<lambda>v. v\<lparr>reactions := reactions v @ [Subscribed s]\<rparr>)
                 else (\<lambda>v. v\<lparr>queue := queue v @ [ReactionJob (Subscribed s) (state v)]\<rparr>))
                  (if \<not> fulfilled w then w\<lparr>calls := calls w @ [(s, ArgLoadable (item w))]\<rparr> else w))"
  by (simp add: subscribe_def promise_then_def NewPromiseCapability_def species_def class_of_def Let_def)

lemma then_result:
  "promise_then r w =
     Inr (Derived PromiseClass,
          if state w = Pending then w\<lparr>reactions := reactions w @ [r]\<rparr>
          else w\<lparr>queue := queue w @ [ReactionJob r (state w)]\<rparr>)"
  by (simp add: promise_then_def NewPromiseCapability_def species_def class_of_def)

lemma microtask_plain:
  assumes "plain_world w"
  shows "microtask w =
     (case queue w of
        [] \<Rightarrow> w
      | ReactionJob r out # jobs \<Rightarrow> run_job (ReactionJob r out) (w\<lparr>queue := jobs\<rparr>)
      | ThenableJob t # jobs \<Rightarrow> w)"
  using assms by (auto simp: microtask_def plain_world_def split: list.splits job.splits)

lemma run_job_subscribed:
  "well_settled out \<Longrightarrow> out \<noteq> Pending \<Longrightarrow>
     run_job (ReactionJob (Subscribed s') out) w = w\<lparr>calls := calls w @ [(s', terminal out)]\<rparr>"
proof (cases out)
  case (Rejected r)
  assume "well_settled out"
  then have "reason_item r = Inr (terminal (Rejected r))"
    using Rejected by (cases r) (auto simp: reason_item_def)
  then show ?thesis using Rejected by (simp add: run_job_def)
qed (auto simp: run_job_def)

lemma run_job_consumer:
  "run_job (ReactionJob (Consumer c) out) w = w\<lparr>delivered := delivered w @ [(c, out)]\<rparr>"
  by (simp add: run_job_def)

lemma run_job_fields [simp]:
  "state (run_job j w) = state w" "queue (run_job j w) = queue w"
  "reactions (run_job j w) = reactions w" "item (run_job j w) = item w"
  "fulfilled (run_job j w) = fulfilled w" "resolved (run_job j w) = resolved w"
  by (auto simp: run_job_def split: job.splits reaction.splits pstate.splits sum.splits)

lemma plain_step: "plain_world w \<Longrightarrow> \<not> follows_thenable e \<Longrightarrow> plain_world (step e w)"
proof (cases e)
  case (CallResolve t)
  assume "plain_world w" "\<not> follows_thenable e"
  then show ?thesis using CallResolve
    by (auto simp: step_plain intro!: plain_settle)
next
  case (CallReject t)
  assume "plain_world w" "\<not> follows_thenable e"
  then show ?thesis using CallReject
    by (auto simp: step_plain intro!: plain_settle)
next
  case (CallSubscribe s)
  assume "plain_world w" "\<not> follows_thenable e"
  then show ?thesis using CallSubscribe
    by (auto simp: step_plain subscribe_result plain_world_def)
next
  case (CallThen c)
  assume "plain_world w" "\<not> follows_thenable e"
  then show ?thesis using CallThen
    by (auto simp: step_plain then_result plain_world_def)
next
  case Microtask
  assume "plain_world w" "\<not> follows_thenable e"
  then show ?thesis using Microtask
    by (auto simp: step_def microtask_def plain_world_def run_job_def
        split: list.splits job.splits reaction.splits pstate.splits sum.splits)
next
  case (ThenableFulfils a)
  assume "plain_world w" "\<not> follows_thenable e"
  then show ?thesis using ThenableFulfils by (simp add: step_plain)
next
  case (ThenableRejects v)
  assume "plain_world w" "\<not> follows_thenable e"
  then show ?thesis using ThenableRejects by (simp add: step_plain)
qed

lemma unknown_upd [simp]:
  "unknown s (w\<lparr>fulfilled := b\<rparr>) = unknown s w"
  "unknown s (w\<lparr>resolved := b\<rparr>) = unknown s w"
  by (simp_all add: unknown_def)

lemma unknown_settle: "unknown s w \<Longrightarrow> unknown s (settle out w)"
  by (simp add: unknown_def jobs_of_settle reactions_settle count_list_0)

lemma unknown_step:
  "plain_world w \<Longrightarrow> \<not> follows_thenable e \<Longrightarrow> unknown s w \<Longrightarrow> e \<noteq> CallSubscribe s \<Longrightarrow>
     unknown s (step e w)"
proof (cases e)
  case (CallResolve t)
  assume "plain_world w" "\<not> follows_thenable e" "unknown s w"
  then show ?thesis using CallResolve by (auto simp: step_plain intro!: unknown_settle)
next
  case (CallReject t)
  assume "plain_world w" "\<not> follows_thenable e" "unknown s w"
  then show ?thesis using CallReject by (auto simp: step_plain intro!: unknown_settle)
next
  case (CallSubscribe s')
  assume "plain_world w" "\<not> follows_thenable e" "unknown s w" "e \<noteq> CallSubscribe s"
  then show ?thesis using CallSubscribe
    by (auto simp: step_plain subscribe_result unknown_def)
next
  case (CallThen c)
  assume "plain_world w" "\<not> follows_thenable e" "unknown s w"
  then show ?thesis using CallThen
    by (auto simp: step_plain then_result unknown_def)
next
  case Microtask
  assume "plain_world w" "\<not> follows_thenable e" "unknown s w"
  then show ?thesis using Microtask
    by (auto simp: step_def microtask_def run_job_def unknown_def jobs_of_def calls_of_def
        split: list.splits job.splits reaction.splits pstate.splits sum.splits if_splits)
next
  case (ThenableFulfils a)
  assume "plain_world w" "\<not> follows_thenable e" "unknown s w"
  then show ?thesis using ThenableFulfils by (simp add: step_plain)
next
  case (ThenableRejects v)
  assume "plain_world w" "\<not> follows_thenable e" "unknown s w"
  then show ?thesis using ThenableRejects by (simp add: step_plain)
qed

lemma watching_upd [simp]:
  "watching s itm (w\<lparr>fulfilled := b\<rparr>) = watching s itm w"
  "watching s itm (w\<lparr>resolved := b\<rparr>) = watching s itm w"
  by (simp_all add: watching_def)

lemma watching_settle:
  "watching s itm w \<Longrightarrow> well_settled out \<Longrightarrow> out \<noteq> Pending \<Longrightarrow> watching s itm (settle out w)"
  by (auto simp: watching_def state_settle reactions_settle jobs_of_settle)

lemma watching_microtask:
  assumes "all_well_settled w" "watching s itm w"
  shows "watching s itm (microtask w)"
proof (cases "queue w")
  case Nil
  then show ?thesis using assms by (simp add: microtask_def)
next
  case (Cons j jobs)
  show ?thesis
  proof (cases j)
    case (ThenableJob t)
    then show ?thesis using assms Cons
      by (auto simp: microtask_def run_job_def watching_def jobs_of_def calls_of_def)
  next
    case (ReactionJob r out)
    have out: "well_settled out" using assms(1) Cons ReactionJob by (simp add: all_well_settled_def)
    show ?thesis
    proof (cases r)
      case (Consumer c)
      then show ?thesis using assms(2) Cons ReactionJob
        by (auto simp: microtask_def run_job_consumer watching_def jobs_of_def calls_of_def)
    next
      case (Subscribed s')
      show ?thesis
      proof (cases "out = Pending")
        case True
        then show ?thesis using assms(2) Cons ReactionJob Subscribed
          by (auto simp: microtask_def run_job_def watching_def jobs_of_def calls_of_def split: if_splits)
      next
        case False
        then show ?thesis using assms(2) Cons ReactionJob Subscribed out
          by (auto simp: microtask_def run_job_subscribed watching_def jobs_of_def calls_of_def
              split: if_splits)
      qed
    qed
  qed
qed

lemma watching_step:
  assumes "plain_world w" "\<not> follows_thenable e" "all_well_settled w" "watching s itm w"
    "e \<noteq> CallSubscribe s"
  shows "watching s itm (step e w)"
proof (cases e)
  case (CallResolve t)
  then have "ready (status_of t) \<Longrightarrow> \<not> thenable t"
    using assms(2) by (simp add: follows_thenable_def)
  then show ?thesis using assms CallResolve
    by (auto simp: step_plain intro!: watching_settle)
next
  case (CallReject t)
  then show ?thesis using assms
    by (auto simp: step_plain LoadError_new_def Let_def intro!: watching_settle)
next
  case (CallSubscribe s')
  then show ?thesis using assms
    by (auto simp: step_plain subscribe_result watching_def)
next
  case (CallThen c)
  then show ?thesis using assms
    by (auto simp: step_plain then_result watching_def)
next
  case Microtask
  then show ?thesis using assms by (simp add: step_def watching_microtask)
next
  case (ThenableFulfils a)
  then show ?thesis using assms by (simp add: step_plain)
next
  case (ThenableRejects v)
  then show ?thesis using assms by (simp add: step_plain)
qed

lemma well_upd [simp]:
  "all_well_settled (w\<lparr>fulfilled := b\<rparr>) = all_well_settled w"
  "all_well_settled (w\<lparr>resolved := b\<rparr>) = all_well_settled w"
  by (simp_all add: all_well_settled_def)

lemma settle_well:
  "all_well_settled w \<Longrightarrow> well_settled out \<Longrightarrow> all_well_settled (settle out w)"
  by (auto simp: all_well_settled_def settle_def list_all_iff)

lemma step_well:
  assumes "plain_world w" "\<not> follows_thenable e" "all_well_settled w"
  shows "all_well_settled (step e w)"
proof (cases e)
  case (CallResolve t)
  then have "ready (status_of t) \<Longrightarrow> \<not> thenable t"
    using assms(2) by (simp add: follows_thenable_def)
  then show ?thesis using assms CallResolve
    by (auto simp: step_plain intro!: settle_well)
next
  case (CallReject t)
  then show ?thesis using assms
    by (auto simp: step_plain LoadError_new_def Let_def intro!: settle_well)
next
  case (CallSubscribe s)
  then show ?thesis using assms
    by (auto simp: step_plain subscribe_result all_well_settled_def)
next
  case (CallThen c)
  then show ?thesis using assms
    by (auto simp: step_plain then_result all_well_settled_def)
next
  case Microtask
  then show ?thesis using assms
    by (auto simp: step_def microtask_def run_job_def all_well_settled_def
        split: list.splits job.splits reaction.splits pstate.splits sum.splits)
next
  case (ThenableFulfils a)
  then show ?thesis using assms by (simp add: step_plain)
next
  case (ThenableRejects v)
  then show ?thesis using assms by (simp add: step_plain)
qed

lemma steady_step:
  assumes "plain_world w" "\<not> follows_thenable e" "steady itm w"
  shows "steady itm (step e w)"
proof (cases e)
  case Microtask
  then show ?thesis using assms
    by (auto simp: step_def microtask_def steady_def split: list.splits)
qed (use assms in \<open>auto simp: step_plain subscribe_result then_result steady_def state_settle\<close>)

text \<open>A settled promise stays as it is, whatever happens.\<close>

lemma state_step: "state w \<noteq> Pending \<Longrightarrow> state (step e w) = state w"
  by (cases e)
     (auto simp: step_def resolve_wrapper_def reject_wrapper_def promise_resolve_def
        promise_reject_def state_settle subscribe_result then_result microtask_def
        split: list.splits)

lemma state_run: "state w \<noteq> Pending \<Longrightarrow> state (run evs w) = state w"
  by (induction evs arbitrary: w) (auto simp: state_step)

text \<open>The invariants together hold along a run that hands the promise no thenable.\<close>

lemma sound_run:
  assumes "sound itm w" "\<forall>e \<in> set evs. \<not> follows_thenable e"
  shows "sound itm (run evs w)"
  by (rule run_invariant) (use assms in \<open>auto simp: sound_def intro: plain_step step_well steady_step\<close>)

lemma unknown_run:
  assumes "sound itm w" "\<forall>e \<in> set evs. \<not> follows_thenable e" "unknown s w"
    "CallSubscribe s \<notin> set evs"
  shows "unknown s (run evs w)"
proof -
  have "sound itm (run evs w) \<and> unknown s (run evs w)"
    by (rule run_invariant)
       (use assms in \<open>auto simp: sound_def intro: plain_step step_well steady_step unknown_step\<close>)
  then show ?thesis by simp
qed

lemma watching_run:
  assumes "sound itm' w" "\<forall>e \<in> set evs. \<not> follows_thenable e" "watching s itm w"
    "CallSubscribe s \<notin> set evs"
  shows "watching s itm (run evs w)"
proof -
  have "sound itm' (run evs w) \<and> watching s itm (run evs w)"
    by (rule run_invariant)
       (use assms in \<open>auto simp: sound_def intro: plain_step step_well steady_step watching_step\<close>)
  then show ?thesis by simp
qed


lemma new_world:
  assumes "LoadablePromise_new exec itm = Inr w0"
  shows "item w0 = itm" "unknown s w0" "queue w0 = []" "delivered w0 = []"
    "state w0 = Pending \<Longrightarrow> loading (status_of itm)"
    "state w0 = Pending \<Longrightarrow> sound itm w0"
  using assms
  by (auto simp: LoadablePromise_new_def steady_def unknown_def calls_of_def jobs_of_def sound_def
      plain_world_def all_well_settled_def Promise_new_def super_executor_def
      split: if_splits sum.splits)

lemma subscribe_pending:
  assumes "state w = Pending" "\<not> fulfilled w" "unknown s w" "sound itm w"
  shows "\<exists>w1. subscribe s w = Inr (Self, w1)
           \<and> calls w1 = calls w @ [(s, ArgLoadable (item w))]
           \<and> watching s (item w) w1 \<and> sound itm w1 \<and> state w1 = Pending"
  using assms
  by (auto simp: subscribe_result watching_def unknown_def sound_def all_well_settled_def
      plain_world_def steady_def count_list_0)

lemma microtask_queue: "queue (microtask w) = tl (queue w)"
  by (auto simp: microtask_def split: list.splits)

lemma queue_drained: "length (queue w) = n \<Longrightarrow> queue (run (replicate n Microtask) w) = []"
proof (induction n arbitrary: w)
  case 0
  then show ?case by simp
next
  case (Suc n)
  then have "length (queue (microtask w)) = n" by (simp add: microtask_queue)
  then show ?case using Suc.IH by (simp add: step_def)
qed

lemma drain_queue: "queue (drain w) = []"
  by (simp add: drain_def queue_drained)

lemma drain_state: "state (drain w) = state w"
proof -
  have "state (run (replicate n Microtask) w) = state w" for n
    by (induction n arbitrary: w) (auto simp: step_def microtask_def split: list.splits)
  then show ?thesis by (simp add: drain_def)
qed

lemma drain_watching:
  "sound itm' w \<Longrightarrow> watching s itm w \<Longrightarrow> watching s itm (drain w)"
  unfolding drain_def by (rule watching_run) (auto simp: follows_thenable_def)

lemma watching_drained:
  assumes "sound itm' w" "watching s itm w" "state w \<noteq> Pending"
  shows "calls_of s (drain w) = [ArgLoadable itm, terminal (state w)]"
proof -
  have "watching s itm (drain w)" using assms by (simp add: drain_watching)
  moreover have "jobs_of s (drain w) = []" by (simp add: jobs_of_def drain_queue)
  ultimately show ?thesis using assms(3) by (auto simp: watching_def drain_state)
qed

lemma settled_cases:
  assumes "well_settled st" "st \<noteq> Pending"
  shows "(\<exists>t. st = Fulfilled (ArgLoadable t) \<and> ready (status_of t) \<and> \<not> thenable t)
         \<or> (\<exists>le. st = Rejected (RLoadError le) \<and> ToBoolean (error (status_of (le_item le))))"
proof (cases st)
  case Pending
  then show ?thesis using assms by simp
next
  case (Fulfilled a)
  then show ?thesis using assms by (cases a) auto
next
  case (Rejected r)
  then show ?thesis using assms by (cases r) auto
qed

section \<open>Reading a Loadable back\<close>

lemma merge_whole [simp]: "merge_status st0 (whole st) = st"
  by (simp add: merge_status_def whole_def)

lemma merge_none [simp]: "merge_status st no_patch = st"
  by (simp add: merge_status_def no_patch_def)

lemma status_roundtrip [simp]: "status_of_js (status_to_js st) = st"
  by (simp add: status_of_js_def status_to_js_def object_literal_def)

lemma reserved_keys_distinct [simp]:
  "itemKey \<noteq> statusKey" "statusKey \<noteq> itemKey" "itemKey \<noteq> constructKey"
  "constructKey \<noteq> itemKey" "statusKey \<noteq> constructKey" "constructKey \<noteq> statusKey"
  by (simp_all add: itemKey_def statusKey_def constructKey_def)

lemma ProxyWrapper_accepts:
  "ProxyWrapper val ext = Inr w \<Longrightarrow> typeof val \<noteq> TFunction \<and> (\<exists>b. w = JProxy b ext)"
  by (auto simp: ProxyWrapper_def split: if_splits jsval.splits)

lemma LoadableProxy_result:
  assumes "LoadableProxy itm patch = Inr l"
  shows "is_proxy l \<and> item_of l = itm \<and> status_of l = merge_status defaultStatus patch"
proof -
  let ?ext = "loadable_extension itm patch"
  from assms obtain w where made: "ProxyWrapper (if itm = JUndefined then JNull else itm) ?ext = Inr w"
    and l: "l = LProxy w"
    by (auto simp: LoadableProxy_def split: sum.splits)
  from ProxyWrapper_accepts [OF made] obtain b where w: "w = JProxy b ?ext"
    and notfun: "typeof itm \<noteq> TFunction"
    by (auto split: if_splits)
  have obj: "typeof (status_to_js st) = TObject" for st
    by (simp add: status_to_js_def object_literal_def)
  show ?thesis
    using notfun by (simp add: l w loadable_extension_def hasOwnProperty_def bind_builtin_def obj)
qed

lemma construct_result:
  "construct l itm st = Inr l' \<Longrightarrow> is_proxy l' = is_proxy l \<and> item_of l' = itm \<and> status_of l' = st"
  by (cases l) (auto simp: LoadableRecord_def dest: LoadableProxy_result)

lemma construct_record: "\<not> is_proxy l \<Longrightarrow> construct l itm st = Inr (LRecord itm st)"
  by (cases l) (auto simp: LoadableRecord_def)

section \<open>Prototype chains and copies of a wrapper\<close>

text \<open>The chain that \<open>js_instanceof\<close> walks is the one \<open>js_getPrototypeOf\<close> steps along.\<close>

lemma proto_chain_unfold:
  "typeof v = TObject \<Longrightarrow> v \<noteq> JNull \<Longrightarrow>
     proto_chain v = js_getPrototypeOf v # proto_chain (js_getPrototypeOf v)"
proof (induction v)
  case (JProxy b e)
  show ?case
  proof (cases "typeof b = TObject \<and> b \<noteq> JNull")
    case True
    then show ?thesis using JProxy.IH by simp
  next
    case False
    then show ?thesis by auto
  qed
qed simp_all

lemma copy_props_only:
  "copy_props (JProxy body ext) ks = Inr r \<Longrightarrow>
     \<forall>(k, v) \<in> set r. k \<in> set ks \<and> \<not> hasOwnProperty ext k \<and> v = js_get (JProxy body ext) k"
proof (induction ks arbitrary: r)
  case Nil
  then show ?case by simp
next
  case (Cons k ks)
  let ?w = "JProxy body ext"
  have IH: "\<forall>(k', v) \<in> set r'. k' \<in> set (k # ks) \<and> \<not> hasOwnProperty ext k' \<and> v = js_get ?w k'"
    if "copy_props ?w ks = Inr r'" for r'
    using Cons.IH [OF that] by auto
  show ?case
  proof (cases "js_getOwnPropertyDescriptor ?w k")
    case (Inl err)
    then show ?thesis using Cons.prems by simp
  next
    case (Inr od)
    show ?thesis
    proof (cases od)
      case None
      then have "copy_props ?w ks = Inr r" using Cons.prems Inr by simp
      then show ?thesis by (rule IH)
    next
      case (Some d)
      show ?thesis
      proof (cases "enumerable d")
        case False
        then have "copy_props ?w ks = Inr r" using Cons.prems Inr Some by simp
        then show ?thesis by (rule IH)
      next
        case True
        then obtain rest where rest: "copy_props ?w ks = Inr rest" and r: "r = (k, js_get ?w k) # rest"
          using Cons.prems Inr Some by (auto split: sum.splits)
        have "\<not> hasOwnProperty ext k"
        proof
          assume "hasOwnProperty ext k"
          then have "js_getOwnPropertyDescriptor ?w k = Inr (Some (Prop (the (map_of ext k)) False False True))"
            by simp
          with Inr Some have "d = Prop (the (map_of ext k)) False False True"
            by simp
          then show False using True by simp
        qed
        then show ?thesis using IH [OF rest] r by simp
      qed
    qed
  qed
qed


lemma copy_props_plain:
  assumes "distinct (map fst ps)" and "\<forall>(k, d) \<in> set ps. configurable d"
    and "set qs \<subseteq> set ps"
  shows "copy_props (JProxy (JObj sl ps p) ext) (map fst qs)
           = Inr (map (\<lambda>(k, d). (k, bind_builtin (JObj sl ps p) (pvalue d)))
                   (filter (\<lambda>(k, d). enumerable d \<and> \<not> hasOwnProperty ext k) qs))"
  using assms(3)
proof (induction qs)
  case Nil
  then show ?case by simp
next
  case (Cons q qs)
  obtain k d where q: "q = (k, d)" by (cases q)
  then have "(k, d) \<in> set ps" using Cons.prems by simp
  then have found: "map_of ps k = Some d" and conf: "configurable d"
    using assms(1,2) by auto
  have rest: "copy_props (JProxy (JObj sl ps p) ext) (map fst qs)
           = Inr (map (\<lambda>(k, d). (k, bind_builtin (JObj sl ps p) (pvalue d)))
                   (filter (\<lambda>(k, d). enumerable d \<and> \<not> hasOwnProperty ext k) qs))"
    using Cons by simp
  show ?case
    using found conf rest by (simp add: q)
qed


section \<open>Methods of boxed values and dates\<close>

lemma digits_only: "c \<in> set (string_of_nat n) \<Longrightarrow> c \<in> set ''0123456789''"
proof (induction n rule: string_of_nat.induct)
  case (1 n)
  show ?case
  proof (cases "n < 10")
    case True
    then have "string_of_nat n = [''0123456789'' ! n]" by (simp add: string_of_nat.simps)
    moreover have "''0123456789'' ! n \<in> set ''0123456789''"
      using True by (intro nth_mem) simp
    ultimately show ?thesis using "1.prems" by simp
  next
    case False
    then have eq: "string_of_nat n = string_of_nat (n div 10) @ [''0123456789'' ! (n mod 10)]"
      by (subst string_of_nat.simps) simp
    have "''0123456789'' ! (n mod 10) \<in> set ''0123456789''"
      by (intro nth_mem) simp
    then show ?thesis using "1.prems" "1.IH" False eq by auto
  qed
qed

lemma index_props_keys:
  "(k, d) \<in> set (index_props i s) \<Longrightarrow> \<exists>n. k = KStr (string_of_nat n)"
  by (induction i s rule: index_props.induct) auto

lemma index_props_miss:
  assumes "\<exists>c \<in> set name. c \<notin> set ''0123456789''"
  shows "map_of (index_props i s) (KStr name) = None"
proof (rule ccontr)
  assume "map_of (index_props i s) (KStr name) \<noteq> None"
  then obtain d where "(KStr name, d) \<in> set (index_props i s)"
    by (auto dest: map_of_SomeD)
  then obtain n where "name = string_of_nat n"
    using index_props_keys by blast
  then show False using assms digits_only by blast
qed

lemma index_props_sym: "map_of (index_props i s) (KSym name) = None"
proof (rule ccontr)
  assume "map_of (index_props i s) (KSym name) \<noteq> None"
  then obtain d where "(KSym name, d) \<in> set (index_props i s)"
    by (auto dest: map_of_SomeD)
  then show False using index_props_keys by blast
qed

lemma index_props_own [simp]:
  "map_of (index_props i s) (KStr ''toString'') = None"
  "map_of (index_props i s) (KStr ''valueOf'') = None"
  "map_of (index_props i s) (KSym name) = None"
  by (simp_all add: index_props_miss index_props_sym)

lemma string_wrapper:
  assumes "\<not> hasOwnProperty ext (KStr ''toString'')" "\<not> hasOwnProperty ext (KStr ''valueOf'')"
    "\<not> hasOwnProperty ext (KSym ''Symbol.toPrimitive'')"
  shows "js_get (JProxy (new_String s) ext) (KStr ''toString'')
           = JBound (JFun (StringProto ''toString'')) (new_String s)"
    and "js_get (JProxy (new_String s) ext) (KStr ''valueOf'')
           = JBound (JFun (StringProto ''valueOf'')) (new_String s)"
    and "js_get (JProxy (new_String s) ext) (KSym ''Symbol.toPrimitive'') = JUndefined"
  using assms
  by (simp_all add: new_String_def String_prototype_def Object_prototype_def methods_def ctor_def
      map_add_def bind_builtin_def cannotProxy_def js_instanceof_def nodeInspectCustom_def proxyKey_def)

lemma number_wrapper:
  assumes "\<not> hasOwnProperty ext (KStr ''toString'')" "\<not> hasOwnProperty ext (KStr ''valueOf'')"
    "\<not> hasOwnProperty ext (KSym ''Symbol.toPrimitive'')"
  shows "js_get (JProxy (new_Number n) ext) (KStr ''valueOf'')
           = JBound (JFun (NumberProto ''valueOf'')) (new_Number n)"
    and "js_get (JProxy (new_Number n) ext) (KSym ''Symbol.toPrimitive'') = JUndefined"
  using assms
  by (simp_all add: new_Number_def Number_prototype_def Object_prototype_def methods_def ctor_def
      bind_builtin_def cannotProxy_def js_instanceof_def nodeInspectCustom_def proxyKey_def)


lemma methods_lookup:
  "m \<in> set names \<Longrightarrow>
     map_of (methods mk names) (KStr m) = Some (Prop (JFun (mk m)) True False True)"
  by (induction names) (auto simp: methods_def)

lemma date_accessor_names:
  "m \<in> set date_accessors \<Longrightarrow> m \<noteq> ''constructor'' \<and> m \<noteq> ''toJSON'' \<and> m \<noteq> ''[Symbol.toPrimitive]''"
  by (auto simp: date_accessors_def)

lemma Date_prototype_lookup:
  assumes "m \<in> set date_accessors"
  shows "\<exists>ps. Date_prototype = JObj NoSlot ps Object_prototype
           \<and> map_of ps (KStr m) = Some (Prop (JFun (DateProto m)) True False True)"
proof -
  have "m \<in> set (date_accessors @ others)" for others using assms by simp
  from methods_lookup [OF this, of DateProto] date_accessor_names [OF assms]
  show ?thesis by (simp add: Date_prototype_def ctor_def map_add_find_right)
qed

lemma date_chain: "proto_chain (new_Date t) = [Date_prototype, Object_prototype, JNull]"
  by (simp add: new_Date_def Date_prototype_def Object_prototype_def)

lemma date_wrapper:
  assumes "m \<in> set date_accessors" "\<not> hasOwnProperty ext (KStr m)"
  shows "js_get (JProxy (new_Date t) ext) (KStr m) = JBound (JFun (DateProto m)) (new_Date t)"
    and "js_get (new_Date t) (KStr m) = JFun (DateProto m)"
proof -
  from Date_prototype_lookup [OF assms(1)] obtain ps
    where proto: "Date_prototype = JObj NoSlot ps Object_prototype"
      and found: "map_of ps (KStr m) = Some (Prop (JFun (DateProto m)) True False True)"
    by blast
  have cannot: "cannotProxy (new_Date t)"
    by (simp add: cannotProxy_def js_instanceof_def date_chain)
  have "typeof (new_Date t) = TObject" "new_Date t \<noteq> JNull"
    by (simp_all add: new_Date_def)
  moreover have "js_in (KStr m) (new_Date t)" "js_get (new_Date t) (KStr m) = JFun (DateProto m)"
    using found by (simp_all add: new_Date_def proto)
  ultimately show "js_get (JProxy (new_Date t) ext) (KStr m) = JBound (JFun (DateProto m)) (new_Date t)"
    and "js_get (new_Date t) (KStr m) = JFun (DateProto m)"
    using assms(2) cannot by (simp_all add: bind_builtin_def)
qed

section \<open>Subscribing\<close>

text \<open>
  The proxy representation of a ready Loadable over an object with a \<^verbatim>\<open>then\<close> method is
  \<open>sample_thenable\<close>: it is ready, and it is a thenable, since its \<^verbatim>\<open>then\<close> is read through
  to the body.
\<close>

lemma sample_thenable_made:
  "LoadableProxy thenable_body (whole \<lparr>ready = True, loading = False, error = JNull\<rparr>)
     = Inr sample_thenable"
  by (simp add: LoadableProxy_def ProxyWrapper_def thenable_body_def object_literal_def
      sample_thenable_def loadable_extension_def)

lemma typeof_bind_builtin: "typeof (bind_builtin body p) = typeof p"
  by (simp add: bind_builtin_def)

lemma sample_thenable_ready:
  "ready (status_of sample_thenable) \<and> thenable sample_thenable"
proof -
  have "ready (status_of sample_thenable)"
    using LoadableProxy_result [OF sample_thenable_made] by simp
  moreover have "thenable sample_thenable"
    by (simp add: sample_thenable_def typeof_bind_builtin thenable_body_def object_literal_def
        itemKey_def statusKey_def constructKey_def hasOwnProperty_def)
  ultimately show ?thesis by simp
qed

text \<open>
  C1, as the spec states it: on every completion-protocol object that has not yet settled,
  \<^verbatim>\<open>subscribe\<close> calls the callback once, at once, with the original loading item, and once
  more, when the object settles, with the terminal item. This fails when the resolve
  callback is given a ready item that is a thenable: the callback sets the \<^verbatim>\<open>fulfilled\<close>
  flag and hands the item to the built-in \<^verbatim>\<open>resolve\<close> (line 77), which follows the
  thenable and leaves the promise pending. A subscriber that comes then is not called with
  the loading item, and when the thenable rejects with the string \<^verbatim>\<open>raw\<close> the subscriber
  is called once, with \<^verbatim>\<open>undefined\<close>.
\<close>

theorem thenable_item_counterexample:
  "ready (status_of sample_thenable)
   \<and> state (run [CallResolve sample_thenable]
        (projr (LoadablePromise_new Defers sample_loading))) = Pending
   \<and> calls (run [CallResolve sample_thenable, CallSubscribe 0]
        (projr (LoadablePromise_new Defers sample_loading))) = []
   \<and> calls (run [CallResolve sample_thenable, CallSubscribe 0, Microtask,
                 ThenableRejects (JStr ''raw''), Microtask]
        (projr (LoadablePromise_new Defers sample_loading))) = [(0, ArgValue JUndefined)]"
proof -
  let ?w0 = "\<lparr>state = Pending, reactions = [], resolved = False, fulfilled = False,
            item = sample_loading, adopting = False, queue = [], calls = [], delivered = []\<rparr>"
  let ?w1 = "\<lparr>state = Pending, reactions = [], resolved = True, fulfilled = True,
            item = sample_loading, adopting = False, queue = [ThenableJob sample_thenable],
            calls = [], delivered = []\<rparr>"
  let ?w2 = "\<lparr>state = Pending, reactions = [Subscribed 0], resolved = True, fulfilled = True,
            item = sample_loading, adopting = False, queue = [ThenableJob sample_thenable],
            calls = [], delivered = []\<rparr>"
  let ?w3 = "\<lparr>state = Pending, reactions = [Subscribed 0], resolved = True, fulfilled = True,
            item = sample_loading, adopting = True, queue = [],
            calls = [], delivered = []\<rparr>"
  let ?raw = "Rejected (RThrown (Thrown (JStr ''raw'')))"
  let ?w4 = "\<lparr>state = ?raw, reactions = [], resolved = True, fulfilled = True,
            item = sample_loading, adopting = True, queue = [ReactionJob (Subscribed 0) ?raw],
            calls = [], delivered = []\<rparr>"
  have new: "LoadablePromise_new Defers sample_loading = Inr ?w0"
    by (simp add: LoadablePromise_new_def Promise_new_def super_executor_def run_executor_def
        sample_loading_def)
  have one: "step (CallResolve sample_thenable) ?w0 = ?w1"
    using sample_thenable_ready by (simp add: step_def resolve_wrapper_def promise_resolve_def)
  have two: "step (CallSubscribe 0) ?w1 = ?w2"
    by (simp add: step_def subscribe_def promise_then_def NewPromiseCapability_def species_def
        class_of_def)
  have three: "step Microtask ?w2 = ?w3"
    by (simp add: step_def microtask_def run_job_def)
  have four: "step (ThenableRejects (JStr ''raw'')) ?w3 = ?w4"
    by (simp add: step_def settle_def)
  have five: "calls (step Microtask ?w4) = [(0, ArgValue JUndefined)]"
    by (simp add: step_def microtask_def run_job_def reason_item_def)
  show ?thesis
    unfolding new using sample_thenable_ready by (simp add: one two three four five)
qed

text \<open>
  C1, amended: on a completion-protocol object that has not yet settled and whose resolve
  callback has not been given a thenable item, \<^verbatim>\<open>subscribe\<close> calls the callback once, at
  once, with the original loading item, and returns the object itself; when the object then
  settles, by success or by failure, the callback is called exactly once more, with the
  terminal item (for a failure the item kept in the \<^verbatim>\<open>LoadError\<close>, not the cause), after
  the loading call. The object is any one obtained from the constructor and still pending
  after any events \<open>evs\<close>; \<open>evs'\<close> is anything that happens after the subscription; neither
  hands the resolve callback a ready thenable; the subscriber \<open>s\<close> subscribes this once.
  Until the object settles \<open>s\<close> has been called once; once it has settled \<open>s\<close> has been
  called once or twice, and twice as soon as the queued jobs have run.
\<close>

theorem subscribe_notifies:
  assumes new: "LoadablePromise_new exec itm = Inr w0"
    and pending: "state (run evs w0) = Pending"
    and plain: "\<forall>e \<in> set evs. \<not> follows_thenable e"
    and fresh: "CallSubscribe s \<notin> set evs"
    and plain': "\<forall>e \<in> set evs'. \<not> follows_thenable e"
    and later: "CallSubscribe s \<notin> set evs'"
  shows "loading (status_of itm)
    \<and> (\<exists>w1. subscribe s (run evs w0) = Inr (Self, w1)
          \<and> calls w1 = calls (run evs w0) @ [(s, ArgLoadable itm)]
          \<and> calls_of s w1 = [ArgLoadable itm]
          \<and> (\<forall>t. ready (status_of t) \<and> \<not> thenable t \<longrightarrow>
                 calls_of s (drain (step (CallResolve t) w1)) = [ArgLoadable itm, ArgLoadable t])
          \<and> (\<forall>t. ToBoolean (error (status_of t)) \<longrightarrow>
                 calls_of s (drain (step (CallReject t) w1)) = [ArgLoadable itm, ArgLoadable t])
          \<and> (case state (run evs' w1) of
                Pending \<Rightarrow> calls_of s (run evs' w1) = [ArgLoadable itm]
              | Fulfilled a \<Rightarrow>
                  (\<exists>t. a = ArgLoadable t \<and> ready (status_of t)
                     \<and> (calls_of s (run evs' w1) = [ArgLoadable itm]
                          \<or> calls_of s (run evs' w1) = [ArgLoadable itm, ArgLoadable t])
                     \<and> calls_of s (drain (run evs' w1)) = [ArgLoadable itm, ArgLoadable t])
              | Rejected r \<Rightarrow>
                  (\<exists>le. r = RLoadError le
                     \<and> (calls_of s (run evs' w1) = [ArgLoadable itm]
                          \<or> calls_of s (run evs' w1) = [ArgLoadable itm, ArgLoadable (le_item le)])
                     \<and> calls_of s (drain (run evs' w1)) = [ArgLoadable itm, ArgLoadable (le_item le)])))"
proof -
  let ?w = "run evs w0"
  have start: "state w0 = Pending"
    using pending state_run [of w0 evs] by auto
  have loading: "loading (status_of itm)"
    using new_world(5) [OF new start] .
  have sound: "sound itm ?w"
    using new_world(6) [OF new start] plain by (rule sound_run)
  have unknown: "unknown s ?w"
    using new_world(6) [OF new start] plain new_world(2) [OF new] fresh by (rule unknown_run)
  from sound pending have flag: "\<not> fulfilled ?w" and item: "item ?w = itm"
    by (auto simp: sound_def steady_def)
  from subscribe_pending [OF pending flag unknown sound] item
  obtain w1 where sub: "subscribe s ?w = Inr (Self, w1)"
    and calls: "calls w1 = calls ?w @ [(s, ArgLoadable itm)]"
    and watch: "watching s itm w1" and sound1: "sound itm w1" and pend1: "state w1 = Pending"
    by auto
  have plain1: "plain_world w1" and well1: "all_well_settled w1"
    using sound1 by (simp_all add: sound_def)
  have first: "calls_of s w1 = [ArgLoadable itm]"
    using watch pend1 by (simp add: watching_def)
  have after: "calls_of s (drain (step e w1)) = [ArgLoadable itm, terminal (state (step e w1))]"
    if "\<not> follows_thenable e" "e \<noteq> CallSubscribe s" "state (step e w1) \<noteq> Pending" for e
  proof -
    have "sound itm (run [e] w1)"
      by (rule sound_run [OF sound1]) (use that in simp)
    moreover have "watching s itm (step e w1)"
      using plain1 that(1) well1 watch that(2) by (rule watching_step)
    ultimately show ?thesis using watching_drained that(3) by simp
  qed
  have resolve: "calls_of s (drain (step (CallResolve t) w1)) = [ArgLoadable itm, ArgLoadable t]"
    if "ready (status_of t) \<and> \<not> thenable t" for t
  proof -
    have "state (step (CallResolve t) w1) = Fulfilled (ArgLoadable t)"
      using that pend1 plain1 by (simp add: step_plain follows_thenable_def state_settle)
    then show ?thesis using after [of "CallResolve t"] that by (simp add: follows_thenable_def)
  qed
  have reject: "calls_of s (drain (step (CallReject t) w1)) = [ArgLoadable itm, ArgLoadable t]"
    if "ToBoolean (error (status_of t))" for t
  proof -
    have "state (step (CallReject t) w1)
                = Rejected (RLoadError (LoadError_new (error (status_of t)) t))"
      using that pend1 plain1 by (simp add: step_plain follows_thenable_def state_settle)
    then show ?thesis using after [of "CallReject t"]
      by (simp add: follows_thenable_def LoadError_new_def Let_def)
  qed
  let ?w2 = "run evs' w1"
  have watch2: "watching s itm ?w2" and sound2: "sound itm ?w2"
    using watching_run [OF sound1 plain' watch later] sound_run [OF sound1 plain'] by auto
  have well2: "well_settled (state ?w2)"
    using sound2 by (simp add: sound_def all_well_settled_def)
  have general: "case state ?w2 of
                Pending \<Rightarrow> calls_of s ?w2 = [ArgLoadable itm]
              | Fulfilled a \<Rightarrow>
                  (\<exists>t. a = ArgLoadable t \<and> ready (status_of t)
                     \<and> (calls_of s ?w2 = [ArgLoadable itm]
                          \<or> calls_of s ?w2 = [ArgLoadable itm, ArgLoadable t])
                     \<and> calls_of s (drain ?w2) = [ArgLoadable itm, ArgLoadable t])
              | Rejected r \<Rightarrow>
                  (\<exists>le. r = RLoadError le
                     \<and> (calls_of s ?w2 = [ArgLoadable itm]
                          \<or> calls_of s ?w2 = [ArgLoadable itm, ArgLoadable (le_item le)])
                     \<and> calls_of s (drain ?w2) = [ArgLoadable itm, ArgLoadable (le_item le)])"
  proof (cases "state ?w2 = Pending")
    case True
    then show ?thesis using watch2 by (simp add: watching_def)
  next
    case False
    have drained: "calls_of s (drain ?w2) = [ArgLoadable itm, terminal (state ?w2)]"
      using watching_drained [OF sound2 watch2 False] .
    from settled_cases [OF well2 False] show ?thesis
    proof
      assume "\<exists>t. state ?w2 = Fulfilled (ArgLoadable t) \<and> ready (status_of t) \<and> \<not> thenable t"
      then obtain t where t: "state ?w2 = Fulfilled (ArgLoadable t)" "ready (status_of t)" by blast
      then show ?thesis using drained watch2 by (auto simp: watching_def)
    next
      assume "\<exists>le. state ?w2 = Rejected (RLoadError le) \<and> ToBoolean (error (status_of (le_item le)))"
      then obtain le where le: "state ?w2 = Rejected (RLoadError le)" by blast
      then show ?thesis using drained watch2 by (auto simp: watching_def)
    qed
  qed
  show ?thesis
    using loading sub calls first resolve reject general by blast
qed

theorem subscribe_notifies_witness:
  "LoadablePromise_new Defers sample_loading
     = Inr \<lparr>state = Pending, reactions = [], resolved = False, fulfilled = False,
            item = sample_loading, adopting = False, queue = [], calls = [], delivered = []\<rparr>
   \<and> loading (status_of sample_loading)
   \<and> fst (projr (subscribe 0 (run [CallThen 1] (projr (LoadablePromise_new Defers sample_loading)))))
        = Self
   \<and> calls (snd (projr (subscribe 0 (run [CallThen 1] (projr (LoadablePromise_new Defers sample_loading))))))
        = [(0, ArgLoadable sample_loading)]
   \<and> calls_of 0 (drain (step (CallResolve sample_ready)
        (snd (projr (subscribe 0 (run [CallThen 1] (projr (LoadablePromise_new Defers sample_loading))))))))
        = [ArgLoadable sample_loading, ArgLoadable sample_ready]
   \<and> calls_of 0 (drain (step (CallReject sample_failed)
        (snd (projr (subscribe 0 (run [CallThen 1] (projr (LoadablePromise_new Defers sample_loading))))))))
        = [ArgLoadable sample_loading, ArgLoadable sample_failed]
   \<and> calls_of 0 (run [CallReject sample_failed, Microtask, Microtask]
        (snd (projr (subscribe 0 (run [CallThen 1] (projr (LoadablePromise_new Defers sample_loading)))))))
        = [ArgLoadable sample_loading, ArgLoadable sample_failed]"
proof -
  let ?w0 = "\<lparr>state = Pending, reactions = [], resolved = False, fulfilled = False,
            item = sample_loading, adopting = False, queue = [], calls = [], delivered = []\<rparr>"
  let ?evs = "[CallThen 1]"
  let ?evs' = "[CallReject sample_failed, Microtask, Microtask]"
  have new: "LoadablePromise_new Defers sample_loading = Inr ?w0"
    by (simp add: LoadablePromise_new_def Promise_new_def super_executor_def run_executor_def
        sample_loading_def)
  have pending: "state (run ?evs ?w0) = Pending"
    by (simp add: step_def promise_then_def NewPromiseCapability_def species_def class_of_def)
  have plain: "\<forall>e \<in> set ?evs. \<not> follows_thenable e"
    by (simp add: follows_thenable_def)
  have fresh: "CallSubscribe 0 \<notin> set ?evs" by simp
  have plain': "\<forall>e \<in> set ?evs'. \<not> follows_thenable e"
    by (simp add: follows_thenable_def)
  have later: "CallSubscribe 0 \<notin> set ?evs'" by simp
  have ready: "ready (status_of sample_ready) \<and> \<not> thenable sample_ready"
    by (simp add: sample_ready_def)
  have failed: "ToBoolean (error (status_of sample_failed))"
    by (simp add: sample_failed_def new_Error_def)
  have message: "LoadError_new (error (status_of sample_failed)) sample_failed
                   = \<lparr>le_message = JStr ''timeout'', le_item = sample_failed\<rparr>"
    by (simp add: LoadError_new_def sample_failed_def new_Error_def js_instanceof_def)
  from subscribe_notifies [OF new pending plain fresh plain' later]
  obtain w1 where sub: "subscribe 0 (run ?evs ?w0) = Inr (Self, w1)"
    and calls: "calls w1 = calls (run ?evs ?w0) @ [(0, ArgLoadable sample_loading)]"
    and resolve: "\<forall>t. ready (status_of t) \<and> \<not> thenable t \<longrightarrow>
           calls_of 0 (drain (step (CallResolve t) w1)) = [ArgLoadable sample_loading, ArgLoadable t]"
    and reject: "\<forall>t. ToBoolean (error (status_of t)) \<longrightarrow>
           calls_of 0 (drain (step (CallReject t) w1)) = [ArgLoadable sample_loading, ArgLoadable t]"
    by blast
  have before: "calls (run ?evs ?w0) = []"
    by (simp add: step_def promise_then_def NewPromiseCapability_def species_def class_of_def)
  have trace: "calls_of 0 (run ?evs' (snd (projr (subscribe 0 (run ?evs ?w0)))))
      = [ArgLoadable sample_loading, ArgLoadable sample_failed]"
    using failed message
    by (simp add: step_def subscribe_def promise_then_def NewPromiseCapability_def species_def
        class_of_def reject_wrapper_def promise_reject_def settle_def microtask_def run_job_def
        reason_item_def calls_of_def)
  have loading: "loading (status_of sample_loading)" by (simp add: sample_loading_def)
  from sub calls before resolve reject ready failed trace loading show ?thesis
    unfolding new by simp
qed

section \<open>Constructing from an item that is not loading\<close>

text \<open>
  C2: constructing a completion-protocol object from a Loadable whose status has
  \<^verbatim>\<open>loading = false\<close> fails with a type error thrown at the call site. The check (line 66)
  stands inside the executor handed to \<^verbatim>\<open>super\<close>, so what it throws rejects the promise
  and the constructor returns. Evaluated on a ready item that is not loading: the
  constructor returns an object, rejected with the type error, whose \<^verbatim>\<open>fulfilled\<close> flag is
  unset; a subscriber of it is then called with the item that is not loading (against the
  note at line 101) and, once the job runs, with \<^verbatim>\<open>undefined\<close>, the \<^verbatim>\<open>item\<close> of a
  \<^verbatim>\<open>TypeError\<close>.
\<close>

theorem constructor_returns_rejected:
  "LoadablePromise_new Defers sample_ready
     = Inr \<lparr>state = Rejected (RThrown (TypeError ''Expected item with status loading'')),
            reactions = [], resolved = True, fulfilled = False, item = sample_ready,
            adopting = False, queue = [], calls = [], delivered = []\<rparr>
   \<and> calls (run [CallSubscribe 0, Microtask] (projr (LoadablePromise_new Defers sample_ready)))
        = [(0, ArgLoadable sample_ready), (0, ArgValue JUndefined)]"
  by (simp add: LoadablePromise_new_def Promise_new_def super_executor_def sample_ready_def
      step_def subscribe_def promise_then_def NewPromiseCapability_def species_def class_of_def
      microtask_def run_job_def reason_item_def)

section \<open>The outcome matches the channel\<close>

text \<open>
  C3, as the spec states it: resolving with an item that is not ready is a type error,
  rejecting with an item whose error is null is a type error, and every rejection delivered
  to consumers is a \<^verbatim>\<open>LoadError\<close> carrying the failed item. The last part fails for a
  rejection that does not come through the reject callback: when the executor throws, the
  promise is rejected with what it threw. Here the item is loading, the executor throws the
  string \<^verbatim>\<open>boom\<close>, and a consumer that chained with \<^verbatim>\<open>then\<close> receives that string.
\<close>

theorem raw_rejection_counterexample:
  "loading (status_of sample_loading)
   \<and> delivered (run [CallThen 0, Microtask]
        (projr (LoadablePromise_new (Throws (JStr ''boom'')) sample_loading)))
       = [(0, Rejected (RThrown (Thrown (JStr ''boom''))))]"
  by (simp add: LoadablePromise_new_def Promise_new_def super_executor_def run_executor_def
      sample_loading_def step_def promise_then_def NewPromiseCapability_def species_def
      class_of_def microtask_def run_job_def)

text \<open>
  A second way past the reject callback: the resolve callback is given a ready item that
  is a thenable, and the thenable rejects. The consumer receives what the thenable gave.
\<close>

lemma thenable_rejection_is_raw:
  "delivered (run [CallThen 0, CallResolve sample_thenable, Microtask,
                   ThenableRejects (JStr ''raw''), Microtask]
        (projr (LoadablePromise_new Defers sample_loading)))
     = [(0, Rejected (RThrown (Thrown (JStr ''raw''))))]"
  using sample_thenable_ready
  by (simp add: LoadablePromise_new_def Promise_new_def super_executor_def run_executor_def
      sample_loading_def step_def promise_then_def NewPromiseCapability_def species_def
      class_of_def resolve_wrapper_def promise_resolve_def microtask_def run_job_def settle_def)

text \<open>
  C3, amended: resolving with an item whose status is not ready is a type error; rejecting
  with an item whose status error is null is a type error; a rejection through the reject
  callback, on an object whose resolving functions have not been used, is a \<^verbatim>\<open>LoadError\<close>
  carrying the item given to the callback; on an object that its constructor left pending
  (the executor returned without throwing) and whose resolve callback is not given a
  thenable item, every rejection, in the object and delivered to a consumer, is a
  \<^verbatim>\<open>LoadError\<close> that carries a failed item; and whatever value the executor throws for a
  loading item, the constructor returns an object rejected with that value itself, which is
  what a consumer then receives.
\<close>

theorem outcome_matches_channel:
  "(\<not> ready (status_of t) \<longrightarrow>
      resolve_wrapper t w = Inl (TypeError ''Expected item with status ready''))
   \<and> (error (status_of t) = JNull \<longrightarrow>
      reject_wrapper t w = Inl (TypeError ''Expected item with status failed''))
   \<and> (error (status_of t) \<noteq> JNull \<and> ToBoolean (error (status_of t))
        \<and> state w = Pending \<and> \<not> resolved w \<longrightarrow>
        (\<exists>w' le. reject_wrapper t w = Inr w' \<and> state w' = Rejected (RLoadError le) \<and> le_item le = t))
   \<and> (LoadablePromise_new exec itm = Inr w0 \<and> state w0 = Pending
        \<and> (\<forall>e \<in> set evs. \<not> follows_thenable e) \<longrightarrow>
        (\<forall>r. state (run evs w0) = Rejected r \<longrightarrow>
               (\<exists>le. r = RLoadError le \<and> ToBoolean (error (status_of (le_item le)))))
        \<and> (\<forall>c r. (c, Rejected r) \<in> set (delivered (run evs w0)) \<longrightarrow>
               (\<exists>le. r = RLoadError le \<and> ToBoolean (error (status_of (le_item le))))))
   \<and> (loading (status_of itm') \<longrightarrow>
        (\<exists>w'. LoadablePromise_new (Throws v) itm' = Inr w'
           \<and> state w' = Rejected (RThrown (Thrown v))
           \<and> delivered (run [CallThen c', Microtask] w') = [(c', Rejected (RThrown (Thrown v)))]))"
proof -
  have a: "\<not> ready (status_of t) \<longrightarrow>
      resolve_wrapper t w = Inl (TypeError ''Expected item with status ready'')"
    by (simp add: resolve_wrapper_def)
  have b: "error (status_of t) = JNull \<longrightarrow>
      reject_wrapper t w = Inl (TypeError ''Expected item with status failed'')"
    by (simp add: reject_wrapper_def)
  have c: "error (status_of t) \<noteq> JNull \<and> ToBoolean (error (status_of t))
        \<and> state w = Pending \<and> \<not> resolved w \<longrightarrow>
        (\<exists>w' le. reject_wrapper t w = Inr w' \<and> state w' = Rejected (RLoadError le) \<and> le_item le = t)"
    by (simp add: reject_wrapper_def promise_reject_def state_settle LoadError_new_def Let_def)
  have d: "(\<forall>r. state (run evs w0) = Rejected r \<longrightarrow>
               (\<exists>le. r = RLoadError le \<and> ToBoolean (error (status_of (le_item le)))))
        \<and> (\<forall>c r. (c, Rejected r) \<in> set (delivered (run evs w0)) \<longrightarrow>
               (\<exists>le. r = RLoadError le \<and> ToBoolean (error (status_of (le_item le)))))"
    if new: "LoadablePromise_new exec itm = Inr w0" and start: "state w0 = Pending"
      and plain: "\<forall>e \<in> set evs. \<not> follows_thenable e"
  proof -
    have "sound itm (run evs w0)"
      using new_world(6) [OF new start] plain by (rule sound_run)
    then have well: "all_well_settled (run evs w0)"
      by (simp add: sound_def)
    have failure: "\<exists>le. r = RLoadError le \<and> ToBoolean (error (status_of (le_item le)))"
      if "well_settled (Rejected r)" for r
      using that by (cases r) auto
    show ?thesis
      using well failure by (fastforce simp: all_well_settled_def list_all_iff)
  qed
  have e: "loading (status_of itm') \<longrightarrow>
        (\<exists>w'. LoadablePromise_new (Throws v) itm' = Inr w'
           \<and> state w' = Rejected (RThrown (Thrown v))
           \<and> delivered (run [CallThen c', Microtask] w') = [(c', Rejected (RThrown (Thrown v)))])"
    by (simp add: LoadablePromise_new_def Promise_new_def super_executor_def run_executor_def
        step_def promise_then_def NewPromiseCapability_def species_def class_of_def
        microtask_def run_job_def)
  from a b c d e show ?thesis by blast
qed

theorem outcome_matches_channel_witness:
  "resolve_wrapper sample_loading (projr (LoadablePromise_new Defers sample_loading))
      = Inl (TypeError ''Expected item with status ready'')
   \<and> reject_wrapper sample_ready (projr (LoadablePromise_new Defers sample_loading))
      = Inl (TypeError ''Expected item with status failed'')
   \<and> state (projr (reject_wrapper sample_failed (projr (LoadablePromise_new Defers sample_loading))))
      = Rejected (RLoadError \<lparr>le_message = JStr ''timeout'', le_item = sample_failed\<rparr>)
   \<and> delivered (run [CallThen 0, CallReject sample_failed, Microtask]
         (projr (LoadablePromise_new Defers sample_loading)))
      = [(0, Rejected (RLoadError \<lparr>le_message = JStr ''timeout'', le_item = sample_failed\<rparr>))]
   \<and> state (projr (LoadablePromise_new (Throws (JNum 7)) sample_loading))
      = Rejected (RThrown (Thrown (JNum 7)))"
proof -
  let ?w0 = "\<lparr>state = Pending, reactions = [], resolved = False, fulfilled = False,
            item = sample_loading, adopting = False, queue = [], calls = [], delivered = []\<rparr>"
  let ?evs = "[CallThen 0, CallReject sample_failed, Microtask]"
  let ?le = "\<lparr>le_message = JStr ''timeout'', le_item = sample_failed\<rparr>"
  have new: "LoadablePromise_new Defers sample_loading = Inr ?w0"
    by (simp add: LoadablePromise_new_def Promise_new_def super_executor_def run_executor_def
        sample_loading_def)
  have unready: "\<not> ready (status_of sample_loading)" by (simp add: sample_loading_def)
  have loading: "loading (status_of sample_loading)" by (simp add: sample_loading_def)
  have unfailed: "error (status_of sample_ready) = JNull" by (simp add: sample_ready_def)
  have failed: "error (status_of sample_failed) \<noteq> JNull \<and> ToBoolean (error (status_of sample_failed))"
    by (simp add: sample_failed_def new_Error_def)
  have message: "LoadError_new (error (status_of sample_failed)) sample_failed = ?le"
    by (simp add: LoadError_new_def sample_failed_def new_Error_def js_instanceof_def)
  have plain: "\<forall>e \<in> set ?evs. \<not> follows_thenable e"
    by (simp add: follows_thenable_def)
  have run: "delivered (run ?evs ?w0) = [(0, Rejected (RLoadError ?le))]"
    using failed message
    by (simp add: step_def promise_then_def NewPromiseCapability_def species_def class_of_def
        reject_wrapper_def promise_reject_def settle_def microtask_def run_job_def)
  have rej: "state (projr (reject_wrapper sample_failed ?w0)) = Rejected (RLoadError ?le)"
    using failed message by (simp add: reject_wrapper_def promise_reject_def settle_def)
  note inst = outcome_matches_channel [of _ ?w0 Defers sample_loading ?w0 ?evs sample_loading "JNum 7" 0]
  from inst [of sample_loading] unready
  have one: "resolve_wrapper sample_loading ?w0 = Inl (TypeError ''Expected item with status ready'')"
    by blast
  from inst [of sample_ready] unfailed
  have two: "reject_wrapper sample_ready ?w0 = Inl (TypeError ''Expected item with status failed'')"
    by blast
  from inst [of sample_failed] failed
  have three: "\<exists>w' le. reject_wrapper sample_failed ?w0 = Inr w'
                 \<and> state w' = Rejected (RLoadError le) \<and> le_item le = sample_failed"
    by simp
  from inst [of sample_failed] new plain run
  have four: "\<exists>le. Rejected (RLoadError ?le) = Rejected (RLoadError le)
                 \<and> ToBoolean (error (status_of (le_item le)))"
    by simp
  from inst [of sample_failed] loading
  have five: "state (projr (LoadablePromise_new (Throws (JNum 7)) sample_loading))
      = Rejected (RThrown (Thrown (JNum 7)))"
    by auto
  from one two rej run five new show ?thesis by simp
qed

section \<open>The wrapper is immutable\<close>

lemma ProxyWrapper_is_proxy: "ProxyWrapper val ext = Inr w \<Longrightarrow> \<exists>b. w = JProxy b ext"
  by (auto simp: ProxyWrapper_def split: if_splits jsval.splits)

text \<open>
  C7: every mutation of a delegation wrapper (assignment, deletion, definition of a
  property, change of the prototype) is rejected with a type error, and a check of its
  extensibility returns, without error, that it is not extensible. The mutations are
  refused as stated (\<^verbatim>\<open>Reflect.setPrototypeOf\<close> reports the refusal as \<^verbatim>\<open>false\<close>). The
  check of extensibility is not: on a wrapper as the substrate produces it, the trap
  answers \<^verbatim>\<open>false\<close> for a target that is extensible, which a proxy refuses with a type
  error. Only after \<^verbatim>\<open>Object.preventExtensions\<close>, which the handler leaves to the target
  (line 152) and which succeeds, does the check return \<^verbatim>\<open>false\<close>.
\<close>

theorem wrapper_extensibility_check:
  "ProxyWrapper val ext = Inr w \<longrightarrow>
     js_assign w k v = Inl (TypeError ''Unable to modify object'')
   \<and> js_delete w k = Inl (TypeError ''Unable to modify object'')
   \<and> Object_defineProperty w k d = Inl (TypeError ''Unable to modify object'')
   \<and> Object_setPrototypeOf w proto = Inl (TypeError ''Object.setPrototypeOf: proxy trap returned falsish'')
   \<and> Reflect_setPrototypeOf w proto = Inr False
   \<and> Object_isExtensible (fresh w) =
       Inl (TypeError ''isExtensible on proxy: trap result does not reflect extensibility of proxy target'')
   \<and> Object_preventExtensions (fresh w) = Inr (w, False)
   \<and> Object_isExtensible (w, False) = Inr False"
proof
  assume "ProxyWrapper val ext = Inr w"
  then obtain b where w: "w = JProxy b ext"
    using ProxyWrapper_is_proxy by blast
  show "js_assign w k v = Inl (TypeError ''Unable to modify object'')
   \<and> js_delete w k = Inl (TypeError ''Unable to modify object'')
   \<and> Object_defineProperty w k d = Inl (TypeError ''Unable to modify object'')
   \<and> Object_setPrototypeOf w proto = Inl (TypeError ''Object.setPrototypeOf: proxy trap returned falsish'')
   \<and> Reflect_setPrototypeOf w proto = Inr False
   \<and> Object_isExtensible (fresh w) =
       Inl (TypeError ''isExtensible on proxy: trap result does not reflect extensibility of proxy target'')
   \<and> Object_preventExtensions (fresh w) = Inr (w, False)
   \<and> Object_isExtensible (w, False) = Inr False"
    unfolding w
    by (simp add: handler_set_def handler_deleteProperty_def handler_defineProperty_def
        handler_setPrototypeOf_def handler_isExtensible_def fresh_def)
qed

theorem wrapper_extensibility_check_witness:
  "ProxyWrapper (object_literal [(KStr ''x'', JNum 42)]) []
     = Inr (JProxy (object_literal [(KStr ''x'', JNum 42)]) [])
   \<and> js_assign (JProxy (object_literal [(KStr ''x'', JNum 42)]) []) (KStr ''x'') (JNum 1)
        = Inl (TypeError ''Unable to modify object'')
   \<and> js_delete (JProxy (object_literal [(KStr ''x'', JNum 42)]) []) (KStr ''x'')
        = Inl (TypeError ''Unable to modify object'')
   \<and> Object_setPrototypeOf (JProxy (object_literal [(KStr ''x'', JNum 42)]) []) JNull
        = Inl (TypeError ''Object.setPrototypeOf: proxy trap returned falsish'')
   \<and> Object_isExtensible (fresh (JProxy (object_literal [(KStr ''x'', JNum 42)]) [])) =
       Inl (TypeError ''isExtensible on proxy: trap result does not reflect extensibility of proxy target'')
   \<and> Object_isExtensible (JProxy (object_literal [(KStr ''x'', JNum 42)]) [], False) = Inr False"
proof -
  have made: "ProxyWrapper (object_literal [(KStr ''x'', JNum 42)]) []
                = Inr (JProxy (object_literal [(KStr ''x'', JNum 42)]) [])"
    by (simp add: ProxyWrapper_def object_literal_def)
  from made wrapper_extensibility_check [of "object_literal [(KStr ''x'', JNum 42)]" "[]"
      "JProxy (object_literal [(KStr ''x'', JNum 42)]) []" "KStr ''x''" "JNum 1" _ JNull]
  show ?thesis by blast
qed

section \<open>Constructing the proxy representation\<close>

text \<open>
  C6: the \<^verbatim>\<open>LoadableProxy\<close> constructor fails with a type error when the item is a boolean
  or a symbol, and accepts an \<^verbatim>\<open>undefined\<close> item (the result has no item and the default
  status) and a \<^verbatim>\<open>null\<close> item (the result has the item \<^verbatim>\<open>null\<close>). The refusals are those
  of \<^verbatim>\<open>ProxyWrapper\<close>; the constructor itself is modelled from the spec.
\<close>

theorem LoadableProxy_accepts:
  "LoadableProxy (JBool b) patch = Inl (TypeError ''Cannot construct proxy from boolean'')
   \<and> LoadableProxy (JSym d) patch = Inl (TypeError ''Cannot construct proxy from symbol'')
   \<and> (\<exists>l. LoadableProxy JUndefined no_patch = Inr l
          \<and> is_proxy l \<and> item_of l = JUndefined \<and> status_of l = defaultStatus)
   \<and> (\<exists>l. LoadableProxy JNull patch = Inr l \<and> is_proxy l \<and> item_of l = JNull)"
proof -
  have a: "LoadableProxy (JBool b) patch = Inl (TypeError ''Cannot construct proxy from boolean'')"
    by (simp add: LoadableProxy_def ProxyWrapper_def)
  have b: "LoadableProxy (JSym d) patch = Inl (TypeError ''Cannot construct proxy from symbol'')"
    by (simp add: LoadableProxy_def ProxyWrapper_def)
  obtain l where l: "LoadableProxy JUndefined no_patch = Inr l"
    by (simp add: LoadableProxy_def ProxyWrapper_def)
  obtain l' where l': "LoadableProxy JNull patch = Inr l'"
    by (simp add: LoadableProxy_def ProxyWrapper_def)
  from LoadableProxy_result [OF l] LoadableProxy_result [OF l'] a b l l'
  show ?thesis by auto
qed

theorem LoadableProxy_accepts_witness:
  "LoadableProxy (JBool True) no_patch = Inl (TypeError ''Cannot construct proxy from boolean'')
   \<and> LoadableProxy (JBool False) no_patch = Inl (TypeError ''Cannot construct proxy from boolean'')
   \<and> item_of (projr (LoadableProxy JUndefined no_patch)) = JUndefined
   \<and> status_of (projr (LoadableProxy JUndefined no_patch)) = \<lparr>ready = False, loading = False, error = JNull\<rparr>"
  using LoadableProxy_accepts [of True no_patch] LoadableProxy_accepts [of False no_patch]
  by (auto simp: defaultStatus_def)

section \<open>The transition operations\<close>

text \<open>
  C4: for every Loadable, markReady (\<^verbatim>\<open>asReady\<close>) takes as final item the new item when
  that is not \<^verbatim>\<open>undefined\<close> and the current item otherwise; it fails with a type error
  when the final item is \<^verbatim>\<open>undefined\<close>; otherwise it returns the rebuild of the final item
  with the status ready, not loading, no error, in the representation of its argument.
  A successful result reads back as that item and that status; on a record the rebuild
  always succeeds.
\<close>

theorem asReady_spec:
  "asReady l newItem =
     (if (if newItem \<noteq> JUndefined then newItem else item_of l) = JUndefined
      then Inl (TypeError ''Expected an item, but given `undefined`'')
      else construct l (if newItem \<noteq> JUndefined then newItem else item_of l)
             \<lparr>ready = True, loading = False, error = JNull\<rparr>)
   \<and> (\<forall>l'. asReady l newItem = Inr l' \<longrightarrow>
          is_proxy l' = is_proxy l
          \<and> item_of l' = (if newItem \<noteq> JUndefined then newItem else item_of l)
          \<and> item_of l' \<noteq> JUndefined
          \<and> status_of l' = \<lparr>ready = True, loading = False, error = JNull\<rparr>)
   \<and> (\<not> is_proxy l \<and> (newItem \<noteq> JUndefined \<or> item_of l \<noteq> JUndefined) \<longrightarrow> (\<exists>l'. asReady l newItem = Inr l'))"
  by (auto simp: asReady_def Let_def construct_record dest: construct_result split: if_splits)

theorem asReady_spec_witness:
  "asReady (LoadableRecord JUndefined no_patch) JUndefined
     = Inl (TypeError ''Expected an item, but given `undefined`'')
   \<and> asReady (LoadableRecord john no_patch) JUndefined
     = Inr (LRecord john \<lparr>ready = True, loading = False, error = JNull\<rparr>)
   \<and> asReady (LoadableRecord john no_patch) alice
     = Inr (LRecord alice \<lparr>ready = True, loading = False, error = JNull\<rparr>)
   \<and> is_proxy (projr (asReady (projr (LoadableProxy john no_patch)) alice))
   \<and> item_of (projr (asReady (projr (LoadableProxy john no_patch)) alice)) = alice
   \<and> status_of (projr (asReady (projr (LoadableProxy john no_patch)) alice))
     = \<lparr>ready = True, loading = False, error = JNull\<rparr>"
proof -
  have alice: "alice \<noteq> JUndefined" and john: "john \<noteq> JUndefined"
    by (simp_all add: alice_def john_def object_literal_def)
  obtain l where l: "LoadableProxy john no_patch = Inr l" and proxy: "is_proxy l"
    by (simp add: LoadableProxy_def ProxyWrapper_def john_def object_literal_def)
  obtain l' where l': "asReady l alice = Inr l'"
    using proxy alice
    by (cases l)
       (auto simp: asReady_def Let_def LoadableProxy_def ProxyWrapper_def alice_def object_literal_def)
  from asReady_spec [of l alice] l' proxy alice
  have "is_proxy l' \<and> item_of l' = alice
          \<and> status_of l' = \<lparr>ready = True, loading = False, error = JNull\<rparr>"
    by auto
  moreover have "asReady (LoadableRecord JUndefined no_patch) JUndefined
     = Inl (TypeError ''Expected an item, but given `undefined`'')"
    using asReady_spec [of "LoadableRecord JUndefined no_patch" JUndefined]
    by (simp add: LoadableRecord_def)
  moreover have "asReady (LoadableRecord john no_patch) JUndefined
     = Inr (LRecord john \<lparr>ready = True, loading = False, error = JNull\<rparr>)"
    using asReady_spec [of "LoadableRecord john no_patch" JUndefined] john
    by (simp add: LoadableRecord_def)
  moreover have "asReady (LoadableRecord john no_patch) alice
     = Inr (LRecord alice \<lparr>ready = True, loading = False, error = JNull\<rparr>)"
    using asReady_spec [of "LoadableRecord john no_patch" alice] alice
    by (simp add: LoadableRecord_def)
  ultimately show ?thesis using l l' by simp
qed

text \<open>
  C5: for every Loadable, markLoading (\<^verbatim>\<open>asLoading\<close>) returns the rebuild of the current
  item with the status loading, no error, and markFailed (\<^verbatim>\<open>asFailed\<close>) the rebuild of the
  current item with the status not loading, error the given reason; in both, ready is set
  exactly when an item is present. A successful result reads back as the same item and that
  status, in the representation of the argument; on a record the rebuild always succeeds.
\<close>

theorem asLoading_asFailed_spec:
  "asLoading l = construct l (item_of l) \<lparr>ready = (item_of l \<noteq> JUndefined), loading = True, error = JNull\<rparr>
   \<and> asFailed l reason
       = construct l (item_of l) \<lparr>ready = (item_of l \<noteq> JUndefined), loading = False, error = reason\<rparr>
   \<and> (\<forall>l'. asLoading l = Inr l' \<longrightarrow>
          is_proxy l' = is_proxy l \<and> item_of l' = item_of l
          \<and> status_of l' = \<lparr>ready = (item_of l \<noteq> JUndefined), loading = True, error = JNull\<rparr>)
   \<and> (\<forall>l'. asFailed l reason = Inr l' \<longrightarrow>
          is_proxy l' = is_proxy l \<and> item_of l' = item_of l
          \<and> status_of l' = \<lparr>ready = (item_of l \<noteq> JUndefined), loading = False, error = reason\<rparr>)
   \<and> (\<not> is_proxy l \<longrightarrow> (\<exists>l'. asLoading l = Inr l') \<and> (\<exists>l'. asFailed l reason = Inr l'))"
  by (auto simp: asLoading_def asFailed_def construct_record dest: construct_result)

theorem asLoading_asFailed_spec_witness:
  "asLoading (LoadableRecord john no_patch)
     = Inr (LRecord john \<lparr>ready = True, loading = True, error = JNull\<rparr>)
   \<and> asFailed (LoadableRecord john no_patch) (new_Error ''fail'')
     = Inr (LRecord john \<lparr>ready = True, loading = False, error = new_Error ''fail''\<rparr>)
   \<and> asLoading (LoadableRecord JUndefined no_patch)
     = Inr (LRecord JUndefined \<lparr>ready = False, loading = True, error = JNull\<rparr>)
   \<and> item_of (projr (asLoading (projr (LoadableProxy john no_patch)))) = john
   \<and> status_of (projr (asLoading (projr (LoadableProxy john no_patch))))
     = \<lparr>ready = True, loading = True, error = JNull\<rparr>
   \<and> status_of (projr (asFailed (projr (LoadableProxy john no_patch)) (new_Error ''fail'')))
     = \<lparr>ready = True, loading = False, error = new_Error ''fail''\<rparr>"
proof -
  have john: "john \<noteq> JUndefined"
    by (simp add: john_def object_literal_def)
  obtain l where l: "LoadableProxy john no_patch = Inr l"
    by (simp add: LoadableProxy_def ProxyWrapper_def john_def object_literal_def)
  from LoadableProxy_result [OF l] have proxy: "is_proxy l" and item: "item_of l = john"
    by simp_all
  obtain l1 where l1: "asLoading l = Inr l1"
    using proxy item
    by (cases l)
       (auto simp: asLoading_def Let_def LoadableProxy_def ProxyWrapper_def john_def object_literal_def)
  obtain l2 where l2: "asFailed l (new_Error ''fail'') = Inr l2"
    using proxy item
    by (cases l)
       (auto simp: asFailed_def Let_def LoadableProxy_def ProxyWrapper_def john_def object_literal_def)
  from asLoading_asFailed_spec [of l "new_Error ''fail''"] l1 l2 item john
  have "item_of l1 = john \<and> status_of l1 = \<lparr>ready = True, loading = True, error = JNull\<rparr>
          \<and> status_of l2 = \<lparr>ready = True, loading = False, error = new_Error ''fail''\<rparr>"
    by auto
  moreover have "asLoading (LoadableRecord john no_patch)
     = Inr (LRecord john \<lparr>ready = True, loading = True, error = JNull\<rparr>)
   \<and> asFailed (LoadableRecord john no_patch) (new_Error ''fail'')
     = Inr (LRecord john \<lparr>ready = True, loading = False, error = new_Error ''fail''\<rparr>)"
    using asLoading_asFailed_spec [of "LoadableRecord john no_patch" "new_Error ''fail''"] john
    by (simp add: LoadableRecord_def)
  moreover have "asLoading (LoadableRecord JUndefined no_patch)
     = Inr (LRecord JUndefined \<lparr>ready = False, loading = True, error = JNull\<rparr>)"
    using asLoading_asFailed_spec [of "LoadableRecord JUndefined no_patch" JNull]
    by (simp add: LoadableRecord_def)
  ultimately show ?thesis using l l1 l2 by simp
qed

section \<open>Extension fields shadow and stay hidden\<close>

text \<open>
  C8, as the spec states it: reading a field that is an own property of the extension
  returns the extension's value for it, whatever the wrapped value has under that name; and
  extension fields are left out of the own keys and of enumeration, so that spreading or
  copying the wrapper yields only the wrapped value's own fields. The first part fails when
  the extension's value is a function and the wrapped value is a string, a number, a date
  or a regular expression: the \<^verbatim>\<open>get\<close> trap then returns the function bound to the wrapped
  value (line 117 applies to what was read from the extension as well), not the function.
\<close>

theorem extension_bound_counterexample:
  "js_get (projr (ProxyWrapper (JStr ''foo'') [(KStr ''tag'', JFun (UserFn ''f''))])) (KStr ''tag'')
     \<noteq> JFun (UserFn ''f'')"
  by (simp add: ProxyWrapper_def hasOwnProperty_def bind_builtin_def cannotProxy_def
      js_instanceof_def new_String_def)

text \<open>
  C8, amended: reading a field that is an own property of the extension returns the
  extension's value for it (bound to the wrapped value when it is a function and the
  wrapped value is an instance of String, Number, Date or RegExp), whatever the wrapped
  value has under that name; the own keys of the wrapper are those of the wrapped value; an
  extension field is reported as not enumerable; whatever a spread of the wrapper yields is
  an own field of the wrapped value that the extension does not shadow; and over an object
  whose own properties are all configurable the spread succeeds and yields exactly the
  enumerable own fields that the extension does not shadow.
\<close>

theorem extension_shadows_and_hides:
  "(hasOwnProperty ext k \<longrightarrow>
      js_get (JProxy body ext) k
        = (if typeof (the (map_of ext k)) = TFunction \<and> cannotProxy body
           then JBound (the (map_of ext k)) body else the (map_of ext k)))
   \<and> js_ownKeys (JProxy body ext)
        = (if typeof body = TObject \<and> body \<noteq> JNull then js_ownKeys body else [])
   \<and> (hasOwnProperty ext k \<longrightarrow>
        (\<exists>d. js_getOwnPropertyDescriptor (JProxy body ext) k = Inr (Some d) \<and> \<not> enumerable d))
   \<and> (\<forall>r. spread_object (JProxy body ext) = Inr r \<longrightarrow>
        (\<forall>(k', v) \<in> set r. k' \<in> set (js_ownKeys body) \<and> \<not> hasOwnProperty ext k'
                            \<and> v = js_get (JProxy body ext) k'))
   \<and> (distinct (map fst ps) \<and> (\<forall>(k', d) \<in> set ps. configurable d) \<longrightarrow>
        spread_object (JProxy (JObj sl ps p) ext)
          = Inr (map (\<lambda>(k', d). (k', bind_builtin (JObj sl ps p) (pvalue d)))
                  (filter (\<lambda>(k', d). enumerable d \<and> \<not> hasOwnProperty ext k') ps)))"
proof -
  have a: "hasOwnProperty ext k \<longrightarrow>
      js_get (JProxy body ext) k
        = (if typeof (the (map_of ext k)) = TFunction \<and> cannotProxy body
           then JBound (the (map_of ext k)) body else the (map_of ext k))"
    by (simp add: bind_builtin_def)
  have b: "js_ownKeys (JProxy body ext)
        = (if typeof body = TObject \<and> body \<noteq> JNull then js_ownKeys body else [])"
    by simp
  have c: "hasOwnProperty ext k \<longrightarrow>
        (\<exists>d. js_getOwnPropertyDescriptor (JProxy body ext) k = Inr (Some d) \<and> \<not> enumerable d)"
    by simp
  have d: "\<forall>r. spread_object (JProxy body ext) = Inr r \<longrightarrow>
        (\<forall>(k', v) \<in> set r. k' \<in> set (js_ownKeys body) \<and> \<not> hasOwnProperty ext k'
                            \<and> v = js_get (JProxy body ext) k')"
  proof (intro allI impI)
    fix r
    assume r: "spread_object (JProxy body ext) = Inr r"
    show "\<forall>(k', v) \<in> set r. k' \<in> set (js_ownKeys body) \<and> \<not> hasOwnProperty ext k'
                            \<and> v = js_get (JProxy body ext) k'"
    proof (cases "typeof body = TObject \<and> body \<noteq> JNull")
      case True
      then have "copy_props (JProxy body ext) (js_ownKeys body) = Inr r"
        using r by (simp add: spread_object_def)
      then show ?thesis by (rule copy_props_only)
    next
      case False
      then have "r = []" using r by (auto simp: spread_object_def)
      then show ?thesis by simp
    qed
  qed
  have e: "distinct (map fst ps) \<and> (\<forall>(k', d) \<in> set ps. configurable d) \<longrightarrow>
        spread_object (JProxy (JObj sl ps p) ext)
          = Inr (map (\<lambda>(k', d). (k', bind_builtin (JObj sl ps p) (pvalue d)))
                  (filter (\<lambda>(k', d). enumerable d \<and> \<not> hasOwnProperty ext k') ps))"
    using copy_props_plain [of ps ps sl p ext] by (simp add: spread_object_def)
  from a b c d e show ?thesis by blast
qed

theorem extension_shadows_and_hides_witness:
  "hasOwnProperty [(KStr ''x'', JNum 7), (KSym ''s'', JStr ''hidden'')] (KStr ''x'')
   \<and> js_get (JProxy (object_literal [(KStr ''x'', JNum 42), (KStr ''y'', JNum 1)])
               [(KStr ''x'', JNum 7), (KSym ''s'', JStr ''hidden'')]) (KStr ''x'') = JNum 7
   \<and> js_ownKeys (JProxy (object_literal [(KStr ''x'', JNum 42), (KStr ''y'', JNum 1)])
               [(KStr ''x'', JNum 7), (KSym ''s'', JStr ''hidden'')]) = [KStr ''x'', KStr ''y'']
   \<and> spread_object (JProxy (object_literal [(KStr ''x'', JNum 42), (KStr ''y'', JNum 1)])
               [(KStr ''x'', JNum 7), (KSym ''s'', JStr ''hidden'')]) = Inr [(KStr ''y'', JNum 1)]"
proof -
  let ?ps = "[(KStr ''x'', Prop (JNum 42) True True True), (KStr ''y'', Prop (JNum 1) True True True)]"
  let ?ext = "[(KStr ''x'', JNum 7), (KSym ''s'', JStr ''hidden'')]"
  have own: "hasOwnProperty ?ext (KStr ''x'')"
    by (simp add: hasOwnProperty_def)
  have plain: "distinct (map fst ?ps) \<and> (\<forall>(k', d) \<in> set ?ps. configurable d)"
    by simp
  from extension_shadows_and_hides [of ?ext "KStr ''x''" "JObj NoSlot ?ps Object_prototype" ?ps NoSlot Object_prototype]
    own plain
  show ?thesis
    by (simp add: object_literal_def hasOwnProperty_def bind_builtin_def)
qed

section \<open>Strings, numbers and dates keep their behaviour\<close>

text \<open>
  C9: a delegation wrapper over the string \<^verbatim>\<open>foo\<close> stringifies and coerces to \<^verbatim>\<open>foo\<close>,
  one over the number 42 coerces to 42, and one over a Date answers the date accessors as
  the Date itself does, because a primitive is boxed and a method read off a String,
  Number, Date or RegExp body is bound to the body and not to the wrapper. Stated for any
  string \<open>s\<close>, number \<open>n\<close> and time value \<open>t\<close>, whatever the built-ins compute (\<open>impl\<close>), and
  for every extension that does not itself define the names involved (a \<^verbatim>\<open>LoadableProxy\<close>
  defines three symbols only). The same accessor called on the wrapper itself, unbound,
  throws.
\<close>

theorem boxed_values_coerce:
  "\<not> hasOwnProperty ext (KStr ''toString'') \<and> \<not> hasOwnProperty ext (KStr ''valueOf'')
     \<and> \<not> hasOwnProperty ext (KSym ''Symbol.toPrimitive'') \<longrightarrow>
   (\<exists>w. ProxyWrapper (JStr s) ext = Inr w
        \<and> invoke impl w ''toString'' [] = Inr (JStr s)
        \<and> js_String impl w = Inr (JStr s)
        \<and> ToPrimitive impl w HintDefault = Inr (JStr s))
   \<and> (\<exists>w. ProxyWrapper (JNum n) ext = Inr w
        \<and> invoke impl w ''valueOf'' [] = Inr (JNum n)
        \<and> js_Number impl w = Inr (JNum n)
        \<and> ToPrimitive impl w HintDefault = Inr (JNum n))
   \<and> (\<forall>m \<in> set date_accessors. \<not> hasOwnProperty ext (KStr m) \<longrightarrow>
        (\<exists>w. ProxyWrapper (new_Date t) ext = Inr w
           \<and> invoke impl w m args = invoke impl (new_Date t) m args
           \<and> invoke impl w m args = impl (DateProto m) (new_Date t) args
           \<and> call impl (JFun (DateProto m)) w args = Inl (TypeError ''this is not a Date object'')))"
proof (intro impI)
  assume ext: "\<not> hasOwnProperty ext (KStr ''toString'') \<and> \<not> hasOwnProperty ext (KStr ''valueOf'')
     \<and> \<not> hasOwnProperty ext (KSym ''Symbol.toPrimitive'')"
  let ?ws = "JProxy (new_String s) ext"
  have slot_s: "thisStringValue (new_String s) = Some s"
    by (simp add: new_String_def)
  have obj_s: "\<not> is_primitive ?ws" by (simp add: is_primitive_def)
  have string: "ProxyWrapper (JStr s) ext = Inr ?ws
        \<and> invoke impl ?ws ''toString'' [] = Inr (JStr s)
        \<and> js_String impl ?ws = Inr (JStr s)
        \<and> ToPrimitive impl ?ws HintDefault = Inr (JStr s)"
    using ext obj_s slot_s
    by (simp add: ProxyWrapper_def invoke_def js_String_def ToPrimitive_def OrdinaryToPrimitive_def
        string_wrapper call_fn_def is_primitive_def del: js_get.simps)
  let ?wn = "JProxy (new_Number n) ext"
  have slot_n: "thisNumberValue (new_Number n) = Some n"
    by (simp add: new_Number_def)
  have obj_n: "\<not> is_primitive ?wn" by (simp add: is_primitive_def)
  have number: "ProxyWrapper (JNum n) ext = Inr ?wn
        \<and> invoke impl ?wn ''valueOf'' [] = Inr (JNum n)
        \<and> js_Number impl ?wn = Inr (JNum n)
        \<and> ToPrimitive impl ?wn HintDefault = Inr (JNum n)"
    using ext obj_n slot_n
    by (simp add: ProxyWrapper_def invoke_def js_Number_def ToPrimitive_def OrdinaryToPrimitive_def
        number_wrapper call_fn_def is_primitive_def del: js_get.simps)
  let ?wd = "JProxy (new_Date t) ext"
  have made: "ProxyWrapper (new_Date t) ext = Inr ?wd"
    by (simp add: ProxyWrapper_def new_Date_def)
  have date: "invoke impl ?wd m args = invoke impl (new_Date t) m args
           \<and> invoke impl ?wd m args = impl (DateProto m) (new_Date t) args
           \<and> call impl (JFun (DateProto m)) ?wd args = Inl (TypeError ''this is not a Date object'')"
    if "m \<in> set date_accessors" "\<not> hasOwnProperty ext (KStr m)" for m
    using date_wrapper [OF that] date_accessor_names [OF that(1)]
    by (simp add: invoke_def call_fn_def del: js_get.simps) (simp add: new_Date_def)
  from string number made date show "(\<exists>w. ProxyWrapper (JStr s) ext = Inr w
        \<and> invoke impl w ''toString'' [] = Inr (JStr s)
        \<and> js_String impl w = Inr (JStr s)
        \<and> ToPrimitive impl w HintDefault = Inr (JStr s))
   \<and> (\<exists>w. ProxyWrapper (JNum n) ext = Inr w
        \<and> invoke impl w ''valueOf'' [] = Inr (JNum n)
        \<and> js_Number impl w = Inr (JNum n)
        \<and> ToPrimitive impl w HintDefault = Inr (JNum n))
   \<and> (\<forall>m \<in> set date_accessors. \<not> hasOwnProperty ext (KStr m) \<longrightarrow>
        (\<exists>w. ProxyWrapper (new_Date t) ext = Inr w
           \<and> invoke impl w m args = invoke impl (new_Date t) m args
           \<and> invoke impl w m args = impl (DateProto m) (new_Date t) args
           \<and> call impl (JFun (DateProto m)) w args = Inl (TypeError ''this is not a Date object'')))"
    by blast
qed

theorem boxed_values_coerce_witness:
  "LoadableProxy (JStr ''foo'') no_patch
     = Inr (LProxy (JProxy (new_String ''foo'') (loadable_extension (JStr ''foo'') no_patch)))
   \<and> invoke (\<lambda>f this args. Inr JUndefined)
        (JProxy (new_String ''foo'') (loadable_extension (JStr ''foo'') no_patch)) ''toString'' []
       = Inr (JStr ''foo'')
   \<and> js_String (\<lambda>f this args. Inr JUndefined)
        (JProxy (new_String ''foo'') (loadable_extension (JStr ''foo'') no_patch))
       = Inr (JStr ''foo'')
   \<and> invoke (\<lambda>f this args. Inr JUndefined)
        (JProxy (new_Number 42) (loadable_extension (JStr ''foo'') no_patch)) ''valueOf'' []
       = Inr (JNum 42)
   \<and> js_Number (\<lambda>f this args. Inr JUndefined)
        (JProxy (new_Number 42) (loadable_extension (JStr ''foo'') no_patch))
       = Inr (JNum 42)
   \<and> invoke (\<lambda>f this args. Inr JUndefined)
        (JProxy (new_Date 1514777040000) (loadable_extension (JStr ''foo'') no_patch)) ''getFullYear'' []
       = invoke (\<lambda>f this args. Inr JUndefined) (new_Date 1514777040000) ''getFullYear'' []"
proof -
  let ?ext = "loadable_extension (JStr ''foo'') no_patch"
  have ext: "\<not> hasOwnProperty ?ext (KStr ''toString'') \<and> \<not> hasOwnProperty ?ext (KStr ''valueOf'')
     \<and> \<not> hasOwnProperty ?ext (KSym ''Symbol.toPrimitive'')"
    by (simp add: loadable_extension_def hasOwnProperty_def itemKey_def statusKey_def constructKey_def)
  have year: "''getFullYear'' \<in> set date_accessors \<and> \<not> hasOwnProperty ?ext (KStr ''getFullYear'')"
    by (simp add: date_accessors_def loadable_extension_def hasOwnProperty_def itemKey_def
        statusKey_def constructKey_def)
  have made: "ProxyWrapper (JStr ''foo'') ?ext = Inr (JProxy (new_String ''foo'') ?ext)"
    "ProxyWrapper (JNum 42) ?ext = Inr (JProxy (new_Number 42) ?ext)"
    "ProxyWrapper (new_Date 1514777040000) ?ext = Inr (JProxy (new_Date 1514777040000) ?ext)"
    by (simp_all add: ProxyWrapper_def new_Date_def)
  have proxy: "LoadableProxy (JStr ''foo'') no_patch = Inr (LProxy (JProxy (new_String ''foo'') ?ext))"
    by (simp add: LoadableProxy_def made)
  from boxed_values_coerce [of ?ext "''foo''" "\<lambda>f this args. Inr JUndefined" 42 1514777040000 "[]"]
    ext year made proxy
  show ?thesis by auto
qed

section \<open>Chaining leaves the protocol\<close>

text \<open>
  C10: chaining on a completion-protocol object always produces a plain promise, not
  another completion-protocol object. The species of \<^verbatim>\<open>LoadablePromise\<close> is \<^verbatim>\<open>Promise\<close>, so
  \<^verbatim>\<open>then\<close> (and \<^verbatim>\<open>catch\<close>, which is \<^verbatim>\<open>then\<close> with one handler) never fails and returns
  a promise of the base class, which has neither \<^verbatim>\<open>subscribe\<close> nor \<^verbatim>\<open>item\<close>.
\<close>

theorem then_yields_plain_promise:
  "species LoadablePromiseClass = PromiseClass
   \<and> (\<exists>w'. promise_then r w = Inr (Derived PromiseClass, w'))
   \<and> \<not> has_subscribe (Derived PromiseClass) \<and> \<not> has_item (Derived PromiseClass)
   \<and> (\<forall>d w'. promise_then r w = Inr (d, w') \<longrightarrow> \<not> has_subscribe d \<and> \<not> has_item d)"
  by (auto simp: promise_then_def species_def class_of_def NewPromiseCapability_def
      has_subscribe_def has_item_def)

theorem then_yields_plain_promise_witness:
  "fst (projr (promise_then (Consumer 0)
      (projr (LoadablePromise_new Defers (LRecord JUndefined \<lparr>ready = False, loading = True, error = JNull\<rparr>)))))
     = Derived PromiseClass
   \<and> \<not> has_subscribe (fst (projr (promise_then (Consumer 0)
      (projr (LoadablePromise_new Defers (LRecord JUndefined \<lparr>ready = False, loading = True, error = JNull\<rparr>))))))"
  using then_yields_plain_promise [of "Consumer 0"
      "projr (LoadablePromise_new Defers (LRecord JUndefined \<lparr>ready = False, loading = True, error = JNull\<rparr>))"]
  by auto

end
